theory Spec2Isabelle
  imports Complex_Main "HOL-Library.Word"
begin

unbundle bit_operations_syntax

section \<open>Value types shared by the controllers\<close>

text \<open>\<^verbatim>\<open>xs[i]\<close> on an array: \<^verbatim>\<open>undefined\<close> (\<open>None\<close>) for an index that is not in the array.\<close>

definition at_index :: "'a list \<Rightarrow> int \<Rightarrow> 'a option" where
  "at_index xs i = (if 0 \<le> i \<and> nat i < length xs then Some (xs ! nat i) else None)"

text \<open>
  Modelled from the spec: the class \<^verbatim>\<open>Fragment\<close> is not among the sources. Of its
  attributes the controllers below use the type (\<open>main\<close>, \<open>subtitle\<close>, \<open>audio\<close>), the
  media sequence number, the discontinuity counter, the index of the owning level, the
  start time and the optional decryption data (a key, which may be \<^verbatim>\<open>null\<close>, and a method).
\<close>

record decryptData =
  dd_key :: "nat list option"
  dd_method :: "string option"

record fragment =
  frag_type :: string
  frag_sn :: int
  frag_cc :: nat
  frag_level :: int
  frag_start :: real
  frag_decryptdata :: "decryptData option"

section \<open>LevelDetails\<close>

subsection \<open>The regular expression of the constructor\<close>

text \<open>
  \<^verbatim>\<open>baseUrl.match(/_HLS_msn=(\d+)(.+_HLS_part=(\d+))?.+_HLS_push=1/)\<close>.
  The fragment of regular expressions that this pattern uses, with the backtracking
  semantics of JavaScript: \<open>rx_match r inp caps\<close> lists, in the order in which the
  matcher tries them, every way in which \<open>r\<close> matches a prefix of \<open>inp\<close>, as the
  remaining input and the captures. Greedy quantifiers try the longest repetition first.
\<close>

datatype rx =
    Lit string
  | DigitsPlus
  | AnyPlus
  | Cat rx rx
  | Opt rx
  | Group nat rx

definition isDigit :: "char \<Rightarrow> bool" where
  "isDigit c \<longleftrightarrow> c \<in> set ''0123456789''"

text \<open>\<^verbatim>\<open>.\<close> matches every character but a line terminator.\<close>

definition isLineTerminator :: "char \<Rightarrow> bool" where
  "isLineTerminator c \<longleftrightarrow> c = CHR 0x0A \<or> c = CHR 0x0D"

definition greedy :: "(char \<Rightarrow> bool) \<Rightarrow> string \<Rightarrow> string option list \<Rightarrow> (string \<times> string option list) list" where
  "greedy p inp caps =
     map (\<lambda>n. (drop n inp, caps)) (rev [1..<Suc (length (takeWhile p inp))])"

fun rx_match :: "rx \<Rightarrow> string \<Rightarrow> string option list \<Rightarrow> (string \<times> string option list) list" where
  "rx_match (Lit s) inp caps =
     (if take (length s) inp = s then [(drop (length s) inp, caps)] else [])"
| "rx_match DigitsPlus inp caps = greedy isDigit inp caps"
| "rx_match AnyPlus inp caps = greedy (\<lambda>c. \<not> isLineTerminator c) inp caps"
| "rx_match (Cat a b) inp caps =
     concat (map (\<lambda>(rest, c). rx_match b rest c) (rx_match a inp caps))"
| "rx_match (Opt a) inp caps = rx_match a inp caps @ [(inp, caps)]"
| "rx_match (Group k a) inp caps =
     map (\<lambda>(rest, c). (rest, c[k := Some (take (length inp - length rest) inp)]))
         (rx_match a inp caps)"

text \<open>The number of capture groups of a pattern.\<close>

fun rx_groups :: "rx \<Rightarrow> nat" where
  "rx_groups (Cat a b) = rx_groups a + rx_groups b"
| "rx_groups (Opt a) = rx_groups a"
| "rx_groups (Group k a) = Suc (rx_groups a)"
| "rx_groups r = 0"

text \<open>
  \<^verbatim>\<open>String.prototype.match\<close> with a pattern without the \<open>g\<close> flag: the first position
  of the input at which the pattern matches. The result array holds the matched text
  and then one entry for every capture group, \<^verbatim>\<open>undefined\<close> (\<open>None\<close>) for a group that
  took no part in the match; \<^verbatim>\<open>null\<close> is \<open>None\<close>.
\<close>

fun js_match :: "rx \<Rightarrow> string \<Rightarrow> string option list option" where
  "js_match r inp =
     (case rx_match r inp (replicate (rx_groups r) None) of
        (rest, caps) # _ \<Rightarrow> Some (Some (take (length inp - length rest) inp) # caps)
      | [] \<Rightarrow> (case inp of [] \<Rightarrow> None | _ # inp' \<Rightarrow> js_match r inp'))"

definition pushRegex :: rx where
  "pushRegex =
     Cat (Lit ''_HLS_msn='')
    (Cat (Group 0 DigitsPlus)
    (Cat (Opt (Group 1 (Cat AnyPlus (Cat (Lit ''_HLS_part='') (Group 2 DigitsPlus)))))
    (Cat AnyPlus (Lit ''_HLS_push=1''))))"

subsection \<open>parseInt\<close>

text \<open>
  \<^verbatim>\<open>parseInt(s)\<close> without radix: leading white space, an optional sign, then the longest
  run of digits (hexadecimal after \<open>0x\<close>); \<open>NaN\<close> (\<open>None\<close>) when there is no digit, and for
  \<^verbatim>\<open>undefined\<close>.
\<close>

definition isWhiteSpace :: "char \<Rightarrow> bool" where
  "isWhiteSpace c \<longleftrightarrow> c \<in> set [CHR 0x09, CHR 0x0A, CHR 0x0B, CHR 0x0C, CHR 0x0D, CHR 0x20]"

definition hexValue :: "char \<Rightarrow> int option" where
  "hexValue c =
     (if c \<in> set ''0123456789'' then Some (int (of_char c) - 48)
      else if c \<in> set ''abcdef'' then Some (int (of_char c) - 87)
      else if c \<in> set ''ABCDEF'' then Some (int (of_char c) - 55)
      else None)"

definition digitsValue :: "int \<Rightarrow> string \<Rightarrow> int option" where
  "digitsValue radix s =
     (let ds = takeWhile (\<lambda>c. case hexValue c of Some v \<Rightarrow> v < radix | None \<Rightarrow> False) s
      in if ds = [] then None
         else Some (foldl (\<lambda>a c. radix * a + the (hexValue c)) 0 ds))"

definition parseInt :: "string option \<Rightarrow> int option" where
  "parseInt v =
     (case v of
        None \<Rightarrow> None
      | Some s \<Rightarrow>
         (let t = dropWhile isWhiteSpace s;
              negative = (take 1 t = ''-'');
              u = (if take 1 t = ''-'' \<or> take 1 t = ''+'' then drop 1 t else t);
              n = (if take 2 u = ''0x'' \<or> take 2 u = ''0X''
                   then digitsValue 16 (drop 2 u) else digitsValue 10 u)
          in map_option (\<lambda>x. if negative then - x else x) n))"

subsection \<open>The value type and its constructor\<close>

record serverControl =
  canBlock :: bool
  canSkipUntil :: real
  holdBack :: real
  partHoldBack :: real

record pushInfo =
  msn :: "int option"
  part :: "int option"

record levelDetails =
  availabilityDelay :: "real option"
  endCC :: int
  endSN :: int
  endPart :: int
  fragments :: "fragment list"
  live :: bool
  startCC :: int
  startSN :: int
  targetduration :: real
  totalduration :: real
  updated :: "bool option"
  d_url :: string
  serverControl :: "serverControl option"
  partTarget :: "real option"
  skipped :: int
  push :: "pushInfo option"

text \<open>The field initialisers of the class; \<open>url\<close> is assigned last by the constructor.\<close>

definition levelDetails_fields :: levelDetails where
  "levelDetails_fields =
     \<lparr> availabilityDelay = None, endCC = 0, endSN = 0, endPart = - 1, fragments = [],
       live = True, startCC = 0, startSN = 0, targetduration = 0, totalduration = 0,
       updated = None, d_url = [], serverControl = None, partTarget = None, skipped = 0,
       push = None \<rparr>"

definition newLevelDetails :: "string \<Rightarrow> levelDetails" where
  "newLevelDetails baseUrl =
     (let params = js_match pushRegex baseUrl;
          this = (case params of
                    None \<Rightarrow> levelDetails_fields
                  | Some ps \<Rightarrow>
                      if length ps = 3
                      then levelDetails_fields
                             \<lparr>push := Some \<lparr> msn = parseInt (ps ! 1), part = parseInt (ps ! 2) \<rparr>\<rparr>
                      else levelDetails_fields)
      in this\<lparr>d_url := baseUrl\<rparr>)"

section \<open>PlaybackRateController\<close>

text \<open>
  JavaScript numbers are modelled as reals. \<^verbatim>\<open>BufferHelper.bufferInfo\<close> is not among the
  sources: \<open>doTick\<close> takes it as a parameter, and uses the field \<open>len\<close> of its result.
\<close>

record mediaElement =
  currentTime :: real
  playbackRate :: real

record bufferInfo =
  len :: real
  bi_start :: real
  bi_end :: real

record playbackRateController =
  media :: "mediaElement option"
  maxBufferHole :: real
  ticking :: bool

text \<open>
  \<^verbatim>\<open>private latencyTarget: number = 3\<close> and \<^verbatim>\<open>private refreshLatency = 1\<close>: fields that
  no method of the class assigns.
\<close>

definition latencyTarget :: real where
  "latencyTarget = 3"

definition refreshLatency :: real where
  "refreshLatency = 1"

definition sigmoid_L :: real where
  "sigmoid_L = 2"

definition sigmoid_k :: real where
  "sigmoid_k = 0.5"

definition sigmoid :: "real \<Rightarrow> real \<Rightarrow> real" where
  "sigmoid x x0 = sigmoid_L / (1 + exp (- sigmoid_k * (x - x0)))"

definition onMediaAttached :: "mediaElement \<Rightarrow> playbackRateController \<Rightarrow> playbackRateController" where
  "onMediaAttached m c = c\<lparr>media := Some m, ticking := True\<rparr>"

definition onMediaDetaching :: "playbackRateController \<Rightarrow> playbackRateController" where
  "onMediaDetaching c = c\<lparr>ticking := False, media := None\<rparr>"

definition doTick ::
  "(mediaElement \<Rightarrow> real \<Rightarrow> real \<Rightarrow> bufferInfo) \<Rightarrow> playbackRateController \<Rightarrow> playbackRateController" where
  "doTick bufferInfoOf c =
     (case media c of
        None \<Rightarrow> c
      | Some m \<Rightarrow>
         (let pos = currentTime m;
              info = bufferInfoOf m pos (maxBufferHole c);
              bufferLength = len info;
              distance = latencyTarget - bufferLength
          in if distance < 0 \<or> distance > refreshLatency
             then c\<lparr>media := Some (m\<lparr>playbackRate := sigmoid bufferLength latencyTarget\<rparr>)\<rparr>
             else c\<lparr>media := Some (m\<lparr>playbackRate := 1\<rparr>)\<rparr>))"

section \<open>BufferOperationQueue\<close>

text \<open>
  A source buffer is known to the queue by its flag \<open>updating\<close>; the table \<open>buffers\<close> is
  the shared \<^verbatim>\<open>sourceBufferReference\<close>. An operation is a label (operations have no
  identity of their own; the label names them in the trace) and its \<open>execute\<close>, which
  acts on the source buffers and either returns or throws a value. Calls of
  \<open>execute\<close> and of the callback \<open>onError\<close> are recorded in order in \<open>trace\<close>.
\<close>

datatype sourceBufferName = Audio | Video

record sourceBuffer =
  updating :: bool

type_synonym sourceBuffers = "sourceBufferName \<Rightarrow> sourceBuffer option"

type_synonym thrown = string

record bufferOperation =
  op_label :: string
  execute :: "sourceBuffers \<Rightarrow> sourceBuffers \<times> thrown option"

datatype queue_event =
    Execute string
  | OnError string thrown

record bufferOperationQueue =
  buffers :: sourceBuffers
  queues :: "sourceBufferName \<Rightarrow> bufferOperation list"
  trace :: "queue_event list"

definition newBufferOperationQueue :: "sourceBuffers \<Rightarrow> bufferOperationQueue" where
  "newBufferOperationQueue sourceBufferReference =
     \<lparr> buffers = sourceBufferReference, queues = (\<lambda>_. []), trace = [] \<rparr>"

text \<open>
  \<open>executeNext\<close>. \<open>sb\<close> is read before \<open>execute\<close> runs and its flag after: the test
  \<^verbatim>\<open>!sb || !sb.updating\<close> sees what the operation did to the buffer before it threw.
\<close>

definition executeNext :: "sourceBufferName \<Rightarrow> bufferOperationQueue \<Rightarrow> bufferOperationQueue" where
  "executeNext type q =
     (let sb = buffers q type;
          queue = queues q type
      in case queue of
           [] \<Rightarrow> q
         | operation # rest \<Rightarrow>
            (case execute operation (buffers q) of
               (buffers', None) \<Rightarrow>
                  q\<lparr>buffers := buffers', trace := trace q @ [Execute (op_label operation)]\<rparr>
             | (buffers', Some e) \<Rightarrow>
                  (let q' = q\<lparr>buffers := buffers',
                              trace := trace q @ [Execute (op_label operation),
                                                  OnError (op_label operation) e]\<rparr>
                   in if sb = None \<or> (case buffers' type of None \<Rightarrow> True | Some b \<Rightarrow> \<not> updating b)
                      then q'\<lparr>queues := (queues q')(type := rest)\<rparr>
                      else q')))"

definition append_op :: "bufferOperation \<Rightarrow> sourceBufferName \<Rightarrow> bufferOperationQueue \<Rightarrow> bufferOperationQueue" where
  "append_op operation type q =
     (let q' = q\<lparr>queues := (queues q)(type := queues q type @ [operation])\<rparr>
      in if length (queues q' type) = 1 \<and> buffers q' type \<noteq> None
         then executeNext type q'
         else q')"

text \<open>\<^verbatim>\<open>Array.prototype.shift\<close> on an empty array leaves it empty.\<close>

definition shiftAndExecuteNext :: "sourceBufferName \<Rightarrow> bufferOperationQueue \<Rightarrow> bufferOperationQueue" where
  "shiftAndExecuteNext type q =
     executeNext type (q\<lparr>queues := (queues q)(type := drop 1 (queues q type))\<rparr>)"

text \<open>
  The source buffer reports the end of an update: the flag falls and the observer of
  \<open>updateend\<close> calls \<open>shiftAndExecuteNext\<close>.
\<close>

definition updateend :: "sourceBufferName \<Rightarrow> bufferOperationQueue \<Rightarrow> bufferOperationQueue" where
  "updateend type q =
     shiftAndExecuteNext type
       (q\<lparr>buffers := (buffers q)(type := map_option (\<lambda>b. b\<lparr>updating := False\<rparr>) (buffers q type))\<rparr>)"

text \<open>Operations of the three kinds that the statements below use.\<close>

definition startsUpdate :: "string \<Rightarrow> sourceBufferName \<Rightarrow> bufferOperation" where
  "startsUpdate name type =
     \<lparr> op_label = name,
       execute = (\<lambda>bs. (bs(type := map_option (\<lambda>b. b\<lparr>updating := True\<rparr>) (bs type)), None)) \<rparr>"

definition throwsAtOnce :: "string \<Rightarrow> thrown \<Rightarrow> bufferOperation" where
  "throwsAtOnce name e = \<lparr> op_label = name, execute = (\<lambda>bs. (bs, Some e)) \<rparr>"

section \<open>TimelineController: cue de-duplication and initial PTS\<close>

text \<open>
  Times are JavaScript numbers, that is, doubles. A finite double is a real number, and
  comparison, \<^verbatim>\<open>Math.min\<close> and \<^verbatim>\<open>Math.max\<close> of doubles are exact; subtraction and
  division round. The functions below therefore take the subtraction \<open>fsub\<close> and the
  division \<open>fdiv\<close> of doubles as parameters. Signed zeros are not told apart.
  The effects of the controller on its collaborators (the cue handler, the event bus,
  the caption parser, the subtitle parsers) are recorded in order in the field
  \<open>effects\<close>.
\<close>

type_synonym cueRange = "real \<times> real"

type_synonym arith = "real \<Rightarrow> real \<Rightarrow> real"

type_synonym captionScreen = "string list"

record fragLoadedData =
  frag :: fragment
  payloadByteLength :: nat

record initPTSFoundData =
  ipf_id :: string
  ipf_frag :: fragment
  ipf_initPTS :: int

text \<open>
  Modelled from the spec: the type \<^verbatim>\<open>MediaPlaylist\<close> and the constant \<^verbatim>\<open>IMSC1_CODEC\<close> are
  declared outside the sources. Of a subtitle track the handlers below read the text
  codec.
\<close>

record subtitleTrack =
  textCodec :: "string option"

definition IMSC1_CODEC :: string where
  "IMSC1_CODEC = ''stpp.ttml.im1t''"

datatype tl_effect =
    NewCue string real real captionScreen
  | CuesParsed string real real captionScreen
  | OnFragLoaded fragLoadedData
  | Cea608Reset
  | SUBTITLE_FRAG_PROCESSED bool fragment
  | ParseIMSC1 fragment
  | ParseVTTs fragment

record vttCC =
  vtt_start :: real
  vtt_prevCC :: int
  vtt_new :: bool

record timelineConfig =
  renderTextTracksNatively :: bool
  enableCEA708Captions :: bool
  enableWebVTT :: bool
  enableIMSC1 :: bool

text \<open>
  \<open>initPTS\<close> is a JavaScript array, possibly with holes, indexed by discontinuity
  counter. The field itself may in principle hold \<^verbatim>\<open>undefined\<close> (\<open>None\<close>), which is
  what \<^verbatim>\<open>typeof this.initPTS === 'undefined'\<close> asks for. \<open>vttCCs\<close> is the table of
  \<^verbatim>\<open>newVTTCCs\<close> by discontinuity counter. \<open>cea608Parser\<close> says whether the parser exists.
\<close>

record timelineController =
  tl_config :: timelineConfig
  cea608Parser :: bool
  tracks :: "subtitleTrack list"
  initPTS :: "int option list option"
  unparsedVttFrags :: "fragLoadedData list"
  cueRanges :: "string \<rightharpoonup> cueRange list"
  lastSn :: int
  prevCC :: int
  vttCCs :: "nat \<rightharpoonup> vttCC"
  effects :: "tl_effect list"

definition newVTTCCs :: "nat \<rightharpoonup> vttCC" where
  "newVTTCCs = [0 \<mapsto> \<lparr>vtt_start = 0, vtt_prevCC = - 1, vtt_new = False\<rparr>]"

text \<open>The field initialisers of the class and the constructor.\<close>

definition newTimelineController :: "timelineConfig \<Rightarrow> timelineController" where
  "newTimelineController cfg =
     \<lparr> tl_config = cfg, cea608Parser = enableCEA708Captions cfg, tracks = [],
       initPTS = Some [], unparsedVttFrags = [], cueRanges = Map.empty,
       lastSn = - 1, prevCC = - 1, vttCCs = newVTTCCs, effects = [] \<rparr>"

subsection \<open>addCues\<close>

definition intersection :: "arith \<Rightarrow> real \<Rightarrow> real \<Rightarrow> real \<Rightarrow> real \<Rightarrow> real" where
  "intersection fsub x1 x2 y1 y2 = fsub (min x2 y2) (max x1 y1)"

text \<open>
  \<^verbatim>\<open>(overlap / (endTime - startTime)) > 0.5\<close>, where \<open>d\<close> is the difference as computed.
  It is evaluated for \<open>overlap \<ge> 0\<close> only. A division by zero gives \<open>NaN\<close> for
  \<open>overlap = 0\<close>, and the comparison is false; it gives \<open>Infinity\<close> for \<open>overlap > 0\<close>,
  and the comparison is true.
\<close>

definition ratio_gt_half :: "arith \<Rightarrow> real \<Rightarrow> real \<Rightarrow> bool" where
  "ratio_gt_half fdiv overlap d = (if d = 0 then overlap > 0 else fdiv overlap d > 0.5)"

text \<open>
  \<^verbatim>\<open>for (let i = ranges.length; i--;)\<close>: the first argument after the arithmetic is the
  value of \<open>i\<close> before the test, so the body runs with index \<open>i - 1\<close>. The result is
  the array of ranges as mutated so far, the flag \<open>merged\<close>, and whether the loop left
  through \<^verbatim>\<open>return\<close>.
\<close>

fun addCues_loop ::
  "arith \<Rightarrow> arith \<Rightarrow> nat \<Rightarrow> cueRange list \<Rightarrow> bool \<Rightarrow> real \<Rightarrow> real \<Rightarrow> cueRange list \<times> bool \<times> bool" where
  "addCues_loop fsub fdiv 0 ranges merged startTime endTime = (ranges, merged, False)"
| "addCues_loop fsub fdiv (Suc i) ranges merged startTime endTime =
     (let cueRange = ranges ! i;
          overlap = intersection fsub (fst cueRange) (snd cueRange) startTime endTime
      in if overlap \<ge> 0
         then (let ranges' = ranges[i := (min (fst cueRange) startTime, max (snd cueRange) endTime)]
               in if ratio_gt_half fdiv overlap (fsub endTime startTime)
                  then (ranges', True, True)
                  else addCues_loop fsub fdiv i ranges' True startTime endTime)
         else addCues_loop fsub fdiv i ranges merged startTime endTime)"

definition addCues ::
  "arith \<Rightarrow> arith \<Rightarrow> string \<Rightarrow> real \<Rightarrow> real \<Rightarrow> captionScreen \<Rightarrow> timelineController \<Rightarrow> timelineController" where
  "addCues fsub fdiv trackName startTime endTime screen tc =
     (let ranges = (case cueRanges tc trackName of None \<Rightarrow> [] | Some rs \<Rightarrow> rs);
          (ranges', merged, returned) =
             addCues_loop fsub fdiv (length ranges) ranges False startTime endTime
      in if returned
         then tc\<lparr>cueRanges := (cueRanges tc)(trackName \<mapsto> ranges')\<rparr>
         else tc\<lparr>cueRanges := (cueRanges tc)(trackName \<mapsto>
                     (if \<not> merged then ranges' @ [(startTime, endTime)] else ranges')),
                 effects := effects tc @
                    [if renderTextTracksNatively (tl_config tc)
                     then NewCue trackName startTime endTime screen
                     else CuesParsed trackName startTime endTime screen]\<rparr>)"

subsection \<open>Initial PTS and waiting subtitle fragments\<close>

text \<open>
  \<^verbatim>\<open>this.initPTS[cc] = v\<close> on a JavaScript array: an index beyond the end extends
  the array, leaving holes.
\<close>

definition array_set :: "'a option list \<Rightarrow> nat \<Rightarrow> 'a \<Rightarrow> 'a option list" where
  "array_set xs i v =
     (if i < length xs then xs[i := Some v]
      else xs @ replicate (i - length xs) None @ [Some v])"

text \<open>
  The array held by \<open>initPTS\<close>. The field holds an array in every state that the
  handlers produce; a field that held \<^verbatim>\<open>undefined\<close> is read as the empty array.
\<close>

definition initPTS_array :: "timelineController \<Rightarrow> int option list" where
  "initPTS_array tc = (case initPTS tc of None \<Rightarrow> [] | Some a \<Rightarrow> a)"

text \<open>\<^verbatim>\<open>Number.isFinite(initPTS[cc])\<close>: the entry is there and is not a hole.\<close>

definition initPTS_known :: "timelineController \<Rightarrow> nat \<Rightarrow> bool" where
  "initPTS_known tc c \<longleftrightarrow> c < length (initPTS_array tc) \<and> initPTS_array tc ! c \<noteq> None"

text \<open>
  \<open>onFragLoaded\<close> of the timeline controller. The parsers of subtitle payloads
  (\<^verbatim>\<open>_parseIMSC1\<close>, \<^verbatim>\<open>_parseVTTs\<close>) call parsers outside the sources with callbacks;
  their call is recorded as an effect.
\<close>

definition tl_onFragLoaded :: "fragLoadedData \<Rightarrow> timelineController \<Rightarrow> timelineController" where
  "tl_onFragLoaded data tc =
     (let fr = frag data
      in if frag_type fr = ''main''
         then (let tc1 = (if frag_sn fr \<noteq> lastSn tc + 1 \<and> cea608Parser tc
                          then tc\<lparr>effects := effects tc @ [Cea608Reset]\<rparr> else tc)
               in tc1\<lparr>lastSn := frag_sn fr\<rparr>)
         else if frag_type fr = ''subtitle''
         then (if payloadByteLength data \<noteq> 0
               then (if \<not> initPTS_known tc (frag_cc fr)
                     then (let tc1 = tc\<lparr>unparsedVttFrags := unparsedVttFrags tc @ [data]\<rparr>
                           in if length (initPTS_array tc) \<noteq> 0
                              then tc1\<lparr>effects := effects tc1 @ [SUBTITLE_FRAG_PROCESSED False fr]\<rparr>
                              else tc1)
                     else (if (case frag_decryptdata fr of
                                 None \<Rightarrow> True
                               | Some dd \<Rightarrow> dd_key dd = None \<or> dd_method dd \<noteq> Some ''AES-128'')
                           then (let trackPlaylistMedia = at_index (tracks tc) (frag_level fr);
                                     tc1 = (if vttCCs tc (frag_cc fr) = None
                                            then tc\<lparr>vttCCs := (vttCCs tc)(frag_cc fr \<mapsto>
                                                      \<lparr>vtt_start = frag_start fr, vtt_prevCC = prevCC tc,
                                                        vtt_new = True\<rparr>),
                                                    prevCC := int (frag_cc fr)\<rparr>
                                            else tc)
                                 in if (case trackPlaylistMedia of
                                          None \<Rightarrow> False
                                        | Some t \<Rightarrow> textCodec t = Some IMSC1_CODEC)
                                    then tc1\<lparr>effects := effects tc1 @ [ParseIMSC1 fr]\<rparr>
                                    else tc1\<lparr>effects := effects tc1 @ [ParseVTTs fr]\<rparr>)
                           else tc))
               else tc\<lparr>effects := effects tc @ [SUBTITLE_FRAG_PROCESSED False fr]\<rparr>)
         else tc)"

text \<open>
  \<open>onInitPtsFound\<close>. The queue of waiting fragments is replaced by an empty one, and
  each waiting fragment is handed to \<open>onFragLoaded\<close> at once: the call is recorded as
  an effect \<open>OnFragLoaded\<close> and then run, so that a fragment whose initial PTS is still
  unknown goes back into the new queue.
\<close>

definition onInitPtsFound :: "initPTSFoundData \<Rightarrow> timelineController \<Rightarrow> timelineController" where
  "onInitPtsFound data tc =
     (let queued = unparsedVttFrags tc;
          tc1 = (if ipf_id data = ''main''
                 then tc\<lparr>initPTS := map_option (\<lambda>a. array_set a (frag_cc (ipf_frag data)) (ipf_initPTS data)) (initPTS tc)\<rparr>
                 else tc)
      in if queued \<noteq> []
         then foldl (\<lambda>t d. tl_onFragLoaded d (t\<lparr>effects := effects t @ [OnFragLoaded d]\<rparr>))
                (tc1\<lparr>unparsedVttFrags := []\<rparr>) queued
         else tc1)"

text \<open>
  Modelled from the spec: \<^verbatim>\<open>new Fragment()\<close> is the sentinel fragment, with no type, no
  decryption data, and numbers at their defaults.
\<close>

definition newFragment :: fragment where
  "newFragment = \<lparr> frag_type = [], frag_sn = 0, frag_cc = 0, frag_level = 0, frag_start = 0,
                    frag_decryptdata = None \<rparr>"

definition onFragParsingInitSegment :: "timelineController \<Rightarrow> timelineController" where
  "onFragParsingInitSegment tc =
     (if initPTS tc = None
      then onInitPtsFound \<lparr> ipf_id = [], ipf_frag = newFragment, ipf_initPTS = 90000 \<rparr> tc
      else tc)"

text \<open>
  \<open>onManifestLoaded\<close> of the timeline controller, as far as it touches the fields
  above; \<open>subtitles\<close> is \<^verbatim>\<open>data.subtitles || []\<close>. The text tracks that it creates on the
  media element and the captions properties are not part of this model.
\<close>

definition tl_onManifestLoaded :: "subtitleTrack list \<Rightarrow> timelineController \<Rightarrow> timelineController" where
  "tl_onManifestLoaded subtitles tc =
     (let hasIMSC1 = list_ex (\<lambda>t. textCodec t = Some IMSC1_CODEC) subtitles;
          tc1 = tc\<lparr>initPTS := Some [], cueRanges := Map.empty\<rparr>
      in if enableWebVTT (tl_config tc) \<or> (hasIMSC1 \<and> enableIMSC1 (tl_config tc))
         then tc1\<lparr>tracks := subtitles\<rparr>
         else tc1)"

subsection \<open>Notions used in the statements about cue ranges\<close>







text \<open>
  A configuration that renders text tracks natively, and the doubles nearest to 5.8
  and 0.8 with the subtraction of doubles at them: \<open>5.8 - 0.8\<close> rounds to \<open>5\<close>.
\<close>

definition nativeConfig :: timelineConfig where
  "nativeConfig = \<lparr> renderTextTracksNatively = True, enableCEA708Captions = True,
                     enableWebVTT = True, enableIMSC1 = False \<rparr>"




section \<open>TimelineController: CEA-608 extraction\<close>

text \<open>
  \<^verbatim>\<open>extractCea608Data (byteArray: Uint8Array): number[][]\<close>.
  The byte array is a list of 8-bit words. Every read \<^verbatim>\<open>byteArray[i]\<close> goes through
  \<open>byteAt\<close>, which is \<open>None\<close> outside the array; the loop propagates it, so a result
  \<open>Some r\<close> says that every read was in range.
\<close>

type_synonym byte = "8 word"

definition byteAt :: "byte list \<Rightarrow> nat \<Rightarrow> byte option" where
  "byteAt byteArray i = (if i < length byteArray then Some (byteArray ! i) else None)"

text \<open>
  The body of the \<^verbatim>\<open>for (let j = 0; j < count; j++)\<close> loop, with \<open>n = count - j\<close>
  iterations left, the running \<open>position\<close> and the two fields collected so far.
\<close>

fun cea608_loop :: "byte list \<Rightarrow> nat \<Rightarrow> nat \<Rightarrow> byte list list \<Rightarrow> byte list list option" where
  "cea608_loop byteArray 0 position actualCCBytes = Some actualCCBytes"
| "cea608_loop byteArray (Suc n) position actualCCBytes =
     (case byteAt byteArray position of
        None \<Rightarrow> None
      | Some tmpByte \<Rightarrow>
     (case byteAt byteArray (position + 1) of
        None \<Rightarrow> None
      | Some b1 \<Rightarrow>
     (case byteAt byteArray (position + 2) of
        None \<Rightarrow> None
      | Some b2 \<Rightarrow>
         (let ccbyte1 = 0x7F AND b1;
              ccbyte2 = 0x7F AND b2;
              ccValid = (4 AND tmpByte \<noteq> 0);
              ccType = unat (3 AND tmpByte)
          in if ccbyte1 = 0 \<and> ccbyte2 = 0
             then cea608_loop byteArray n (position + 3) actualCCBytes
             else if ccValid \<and> (ccType = 0 \<or> ccType = 1)
             then cea608_loop byteArray n (position + 3)
                    (actualCCBytes[ccType := (actualCCBytes ! ccType) @ [ccbyte1, ccbyte2]])
             else cea608_loop byteArray n (position + 3) actualCCBytes))))"

definition extractCea608Data :: "byte list \<Rightarrow> byte list list option" where
  "extractCea608Data byteArray =
     (case byteAt byteArray 0 of
        None \<Rightarrow> None
      | Some b0 \<Rightarrow> cea608_loop byteArray (unat (b0 AND 31)) 2 [[], []])"

text \<open>A field is a sequence of byte pairs, none of which is \<open>(0, 0)\<close>.\<close>

definition cc_field_ok :: "byte list \<Rightarrow> bool" where
  "cc_field_ok f \<longleftrightarrow>
     even (length f) \<and> (\<forall>b \<in> set f. b \<le> 0x7F) \<and>
     (\<forall>i. 2 * i + 1 < length f \<longrightarrow> \<not> (f ! (2 * i) = 0 \<and> f ! (2 * i + 1) = 0))"

section \<open>LevelController\<close>

subsection \<open>JavaScript values used by the controller\<close>

text \<open>A string that may be \<^verbatim>\<open>undefined\<close> is truthy when it is defined and not empty.\<close>

definition truthy :: "string option \<Rightarrow> bool" where
  "truthy v = (case v of None \<Rightarrow> False | Some s \<Rightarrow> s \<noteq> [])"

text \<open>The remainder operator \<^verbatim>\<open>%\<close>: the result has the sign of the dividend.\<close>

definition js_rem :: "int \<Rightarrow> int \<Rightarrow> int" where
  "js_rem a b = sgn a * (\<bar>a\<bar> mod \<bar>b\<bar>)"

text \<open>\<^verbatim>\<open>s.indexOf(sub) !== -1\<close>.\<close>

fun contains :: "string \<Rightarrow> string \<Rightarrow> bool" where
  "contains sub [] = (sub = [])"
| "contains sub (c # cs) = (take (length sub) (c # cs) = sub \<or> contains sub cs)"

text \<open>\<^verbatim>\<open>xs.filter((x, index) => p(x, index))\<close>.\<close>

definition filter_indexed :: "('a \<Rightarrow> nat \<Rightarrow> bool) \<Rightarrow> 'a list \<Rightarrow> 'a list" where
  "filter_indexed p xs = map snd (filter (\<lambda>(i, x). p x i) (enumerate 0 xs))"

text \<open>The decimal text of an integer, as a template literal prints it.\<close>

fun showNat :: "nat \<Rightarrow> string" where
  "showNat n =
     (if n < 10 then [char_of (48 + n)]
      else showNat (n div 10) @ [char_of (48 + n mod 10)])"

definition showInt :: "int \<Rightarrow> string" where
  "showInt i = (if i < 0 then CHR ''-'' # showNat (nat (- i)) else showNat (nat i))"

subsection \<open>Levels\<close>

text \<open>
  Modelled from the spec: the types \<^verbatim>\<open>Level\<close>, \<^verbatim>\<open>LevelParsed\<close> and \<^verbatim>\<open>MediaPlaylist\<close>, the
  helper \<^verbatim>\<open>addGroupId\<close> and the load statistics are declared outside the sources. A
  Level has the attributes that the data model of the specification lists; a new Level
  takes bitrate, codecs and attributes from the parsed entry, holds the entry's URL as
  its only URL, and starts with \<open>urlId = 0\<close>, no load error and no details.
\<close>

record levelAttrs =
  attr_AUDIO :: "string option"
  attr_SUBTITLES :: "string option"

record levelParsed =
  lp_attrs :: "levelAttrs option"
  lp_audioCodec :: "string option"
  lp_bitrate :: int
  lp_url :: string
  lp_videoCodec :: "string option"

record hlsLevel =
  attrs :: "levelAttrs option"
  audioCodec :: "string option"
  audioGroupIds :: "string list option"
  bitrate :: int
  details :: "levelDetails option"
  fragmentError :: bool
  loadError :: int
  textGroupIds :: "string list option"
  url :: "string list"
  urlId :: int
  videoCodec :: "string option"

definition newLevel :: "levelParsed \<Rightarrow> hlsLevel" where
  "newLevel data =
     \<lparr> attrs = lp_attrs data, audioCodec = lp_audioCodec data, audioGroupIds = None,
       bitrate = lp_bitrate data, details = None, fragmentError = False, loadError = 0,
       textGroupIds = None, url = [lp_url data], urlId = 0, videoCodec = lp_videoCodec data \<rparr>"

datatype groupKind = AudioGroup | TextGroup

datatype codecKind = AudioCodec | VideoCodec

definition addGroupId :: "hlsLevel \<Rightarrow> groupKind \<Rightarrow> string \<Rightarrow> hlsLevel" where
  "addGroupId lv kind gid =
     (case kind of
        AudioGroup \<Rightarrow> lv\<lparr>audioGroupIds := Some ((case audioGroupIds lv of None \<Rightarrow> [] | Some g \<Rightarrow> g) @ [gid])\<rparr>
      | TextGroup \<Rightarrow> lv\<lparr>textGroupIds := Some ((case textGroupIds lv of None \<Rightarrow> [] | Some g \<Rightarrow> g) @ [gid])\<rparr>)"

record mediaPlaylist =
  mp_id :: int
  mp_groupId :: "string option"
  mp_audioCodec :: "string option"
  mp_url :: "string option"

record loaderStats =
  trequest :: real
  tfirst :: real
  tload :: real

subsection \<open>Events and errors\<close>

datatype errorType = NETWORK_ERROR | MEDIA_ERROR | OTHER_ERROR

datatype errorDetails =
    MANIFEST_INCOMPATIBLE_CODECS_ERROR
  | LEVEL_LOAD_ERROR
  | LEVEL_LOAD_TIMEOUT
  | LEVEL_SWITCH_ERROR
  | FRAG_LOAD_ERROR
  | FRAG_LOAD_TIMEOUT
  | KEY_LOAD_ERROR
  | KEY_LOAD_TIMEOUT
  | REMUX_ALLOC_ERROR
  | OTHER_DETAILS

record errorData =
  err_type :: errorType
  err_details :: errorDetails
  fatal :: bool
  levelRetry :: "bool option"
  err_frag :: "fragment option"
  err_context_level :: "int option"
  err_level :: "int option"

record manifestParsedData =
  mpd_levels :: "hlsLevel list"
  mpd_audioTracks :: "mediaPlaylist list"
  mpd_firstLevel :: int
  mpd_stats :: loaderStats
  mpd_audio :: bool
  mpd_video :: bool
  mpd_altAudio :: bool

text \<open>What the controller triggers on the event bus.\<close>

datatype lc_event =
    MANIFEST_PARSED manifestParsedData
  | ERROR errorType errorDetails bool
  | LEVEL_SWITCHING hlsLevel int
  | LEVEL_LOADING "string option" int int
  | LEVELS_UPDATED "hlsLevel list"

text \<open>What a handler throws.\<close>

datatype lc_error = LevelsNotSet | TypeError | ServerControlRequired

record manifestLoadedData =
  mld_levels :: "levelParsed list"
  mld_audioTracks :: "mediaPlaylist list option"
  mld_url :: string
  mld_stats :: loaderStats

record levelLoadedData =
  lld_level :: int
  lld_details :: levelDetails
  lld_id :: int
  lld_stats :: loaderStats

subsection \<open>The controller and its timers\<close>

text \<open>
  A pending timeout is the handle that \<^verbatim>\<open>setTimeout\<close> returned, the callback and the
  delay in milliseconds. The callbacks of this controller are \<^verbatim>\<open>() => this.loadLevel()\<close> and
  \<^verbatim>\<open>() => this.loadLowLatencyLevel(details, level, id)\<close>.
\<close>

datatype timerCallback =
    LoadLevel
  | LoadLowLatencyLevel levelDetails int int

record hlsConfig =
  levelLoadingMaxRetry :: int
  levelLoadingRetryDelay :: int
  levelLoadingMaxRetryTimeout :: int
  startLevelConfig :: "int option"

record levelController =
  lc_levels :: "hlsLevel list option"
  lc_firstLevel :: int
  lc_startLevel :: "int option"
  canLoad :: bool
  currentLevelIndex :: "int option"
  levelRetryCount :: nat
  manualLevelIndex :: int
  timer :: "nat option"
  currentSn :: int
  currentPart :: int
  chromeOrFirefox :: bool
  config :: hlsConfig
  hls_audioTracks :: "mediaPlaylist list"
  hls_nextAutoLevel :: int
  timeouts :: "(nat \<times> timerCallback \<times> int) list"
  nextHandle :: nat
  emitted :: "lc_event list"

definition newLevelController :: "bool \<Rightarrow> hlsConfig \<Rightarrow> levelController" where
  "newLevelController ua cfg =
     \<lparr> lc_levels = None, lc_firstLevel = - 1, lc_startLevel = None, canLoad = False,
       currentLevelIndex = None, levelRetryCount = 0, manualLevelIndex = - 1, timer = None,
       currentSn = - 1, currentPart = - 1, chromeOrFirefox = ua, config = cfg,
       hls_audioTracks = [], hls_nextAutoLevel = - 1, timeouts = [], nextHandle = 1,
       emitted = [] \<rparr>"

definition trigger :: "lc_event \<Rightarrow> levelController \<Rightarrow> levelController" where
  "trigger ev st = st\<lparr>emitted := emitted st @ [ev]\<rparr>"

text \<open>\<^verbatim>\<open>this.timer = self.setTimeout(callback, delay)\<close>.\<close>

definition setTimer :: "timerCallback \<Rightarrow> int \<Rightarrow> levelController \<Rightarrow> levelController" where
  "setTimer callback delay st =
     st\<lparr>timer := Some (nextHandle st),
        timeouts := timeouts st @ [(nextHandle st, callback, delay)],
        nextHandle := Suc (nextHandle st)\<rparr>"

definition clearTimer :: "levelController \<Rightarrow> levelController" where
  "clearTimer st =
     (case timer st of
        None \<Rightarrow> st
      | Some h \<Rightarrow> st\<lparr>timeouts := filter (\<lambda>(h', _). h' \<noteq> h) (timeouts st), timer := None\<rparr>)"

definition loadLevel :: "levelController \<Rightarrow> lc_error + levelController" where
  "loadLevel st =
     (case currentLevelIndex st of
        None \<Rightarrow> Inr st
      | Some lvl \<Rightarrow>
          if \<not> canLoad st then Inr st
          else (case lc_levels st of
                  None \<Rightarrow> Inl LevelsNotSet
                | Some ls \<Rightarrow>
                   (case at_index ls lvl of
                      None \<Rightarrow> Inr st
                    | Some levelObject \<Rightarrow>
                        if length (url levelObject) > 0
                        then Inr (trigger (LEVEL_LOADING (at_index (url levelObject) (urlId levelObject))
                                             lvl (urlId levelObject)) st)
                        else Inr st)))"

definition startLoad :: "levelController \<Rightarrow> lc_error + levelController" where
  "startLoad st =
     (let st1 = st\<lparr>canLoad := True, levelRetryCount := 0,
                   lc_levels := map_option
                      (map (\<lambda>lv. lv\<lparr>loadError := 0,
                                     details := (case details lv of
                                                   None \<Rightarrow> None
                                                 | Some d \<Rightarrow> if live d then None else Some d)\<rparr>))
                      (lc_levels st)\<rparr>
      in if timer st1 \<noteq> None then loadLevel st1 else Inr st1)"

definition stopLoad :: "levelController \<Rightarrow> levelController" where
  "stopLoad st = clearTimer (st\<lparr>canLoad := False\<rparr>)"

subsection \<open>Manifest admission\<close>

text \<open>
  The loop \<^verbatim>\<open>data.levels.forEach\<close>. Its state is the array \<open>levels\<close> and the two flags.
  \<^verbatim>\<open>levelSet\<close> holds, under its bitrate, every Level that was pushed to \<open>levels\<close>, and
  nothing else; the lookup \<^verbatim>\<open>levelSet[levelParsed.bitrate]\<close> is the search for that
  bitrate in \<open>levels\<close>, and the Level found is updated where it stands.
\<close>

fun levelSet_lookup :: "hlsLevel list \<Rightarrow> int \<Rightarrow> nat option" where
  "levelSet_lookup [] b = None"
| "levelSet_lookup (lv # lvs) b =
     (if bitrate lv = b then Some 0 else map_option Suc (levelSet_lookup lvs b))"

definition regroup :: "bool \<Rightarrow> hlsLevel list \<times> bool \<times> bool \<Rightarrow> levelParsed \<Rightarrow> hlsLevel list \<times> bool \<times> bool" where
  "regroup ua acc levelParsed0 =
     (case acc of (levels, videoCodecFound0, audioCodecFound0) \<Rightarrow>
       (let attributes = lp_attrs levelParsed0;
            videoCodecFound = (videoCodecFound0 \<or> truthy (lp_videoCodec levelParsed0));
            audioCodecFound1 = (audioCodecFound0 \<or> truthy (lp_audioCodec levelParsed0));
            levelParsed =
              (if ua \<and> truthy (lp_audioCodec levelParsed0) \<and>
                  contains ''mp4a.40.34'' (the (lp_audioCodec levelParsed0))
               then levelParsed0\<lparr>lp_audioCodec := None\<rparr> else levelParsed0);
            (levels1, k) =
              (case levelSet_lookup levels (lp_bitrate levelParsed) of
                 None \<Rightarrow> (levels @ [newLevel levelParsed], length levels)
               | Some i \<Rightarrow> (levels[i := (levels ! i)\<lparr>url := url (levels ! i) @ [lp_url levelParsed]\<rparr>], i));
            audioAttr = (case attributes of None \<Rightarrow> None | Some a \<Rightarrow> attr_AUDIO a);
            textAttr = (case attributes of None \<Rightarrow> None | Some a \<Rightarrow> attr_SUBTITLES a);
            audioCodecFound = (audioCodecFound1 \<or> truthy audioAttr);
            levels2 = (if truthy audioAttr
                       then levels1[k := addGroupId (levels1 ! k) AudioGroup (the audioAttr)]
                       else levels1);
            levels3 = (if truthy textAttr
                       then levels2[k := addGroupId (levels2 ! k) TextGroup (the textAttr)]
                       else levels2)
        in (levels3, videoCodecFound, audioCodecFound)))"

text \<open>The surviving levels in manifest order, and the two flags.\<close>

definition admitted :: "(string \<Rightarrow> codecKind \<Rightarrow> bool) \<Rightarrow> bool \<Rightarrow> levelParsed list \<Rightarrow> hlsLevel list \<times> bool \<times> bool" where
  "admitted isCodecSupportedInMp4 ua parsed =
     (case foldl (regroup ua) ([], False, False) parsed of
        (levels0, videoCodecFound, audioCodecFound) \<Rightarrow>
          (let levels1 = (if videoCodecFound \<and> audioCodecFound
                          then filter (\<lambda>lv. truthy (videoCodec lv)) levels0 else levels0);
               levels2 = filter (\<lambda>lv.
                           (\<not> truthy (audioCodec lv) \<or> isCodecSupportedInMp4 (the (audioCodec lv)) AudioCodec) \<and>
                           (\<not> truthy (videoCodec lv) \<or> isCodecSupportedInMp4 (the (videoCodec lv)) VideoCodec))
                         levels1
           in (levels2, videoCodecFound, audioCodecFound)))"

text \<open>
  \<^verbatim>\<open>for (let i = 0; i < levels.length; i++) if (levels[i].bitrate === bitrateStart) ...; break\<close>:
  the first index with that bitrate, and the old value of \<open>_firstLevel\<close> when there is none.
\<close>

definition findFirstLevel :: "hlsLevel list \<Rightarrow> int \<Rightarrow> int \<Rightarrow> int" where
  "findFirstLevel levels bitrateStart old =
     (case levelSet_lookup levels bitrateStart of None \<Rightarrow> old | Some i \<Rightarrow> int i)"

text \<open>
  \<open>onManifestLoaded\<close>. \<^verbatim>\<open>isCodecSupportedInMp4\<close> is declared outside the sources and
  is a parameter. \<^verbatim>\<open>levels.sort((a, b) => a.bitrate - b.bitrate)\<close> is the stable sort by
  bitrate, \<open>sort_key bitrate\<close>. The callback \<^verbatim>\<open>onParsedComplete\<close>, installed by the player,
  is not part of the controller and is left out.
\<close>

definition onManifestLoaded ::
  "(string \<Rightarrow> codecKind \<Rightarrow> bool) \<Rightarrow> manifestLoadedData \<Rightarrow> levelController \<Rightarrow> levelController" where
  "onManifestLoaded isCodecSupportedInMp4 data st =
     (case admitted isCodecSupportedInMp4 (chromeOrFirefox st) (mld_levels data) of
        (levels, videoCodecFound, audioCodecFound) \<Rightarrow>
          (let audioTracks =
                 (case mld_audioTracks data of
                    None \<Rightarrow> []
                  | Some ts \<Rightarrow>
                      map (\<lambda>(index, track). track\<lparr>mp_id := int index\<rparr>)
                        (enumerate 0
                           (filter (\<lambda>track. \<not> truthy (mp_audioCodec track) \<or>
                                      isCodecSupportedInMp4 (the (mp_audioCodec track)) AudioCodec) ts)))
           in if length levels > 0
              then (let bitrateStart = bitrate (levels ! 0);
                        sortedLevels = sort_key bitrate levels;
                        firstIndex = findFirstLevel sortedLevels bitrateStart (lc_firstLevel st);
                        st1 = st\<lparr>lc_levels := Some sortedLevels, lc_firstLevel := firstIndex\<rparr>
                    in trigger (MANIFEST_PARSED
                         \<lparr> mpd_levels = sortedLevels, mpd_audioTracks = audioTracks, mpd_firstLevel = firstIndex,
                           mpd_stats = mld_stats data, mpd_audio = audioCodecFound,
                           mpd_video = videoCodecFound,
                           mpd_altAudio = list_ex (\<lambda>t. truthy (mp_url t)) audioTracks \<rparr>) st1)
              else trigger (ERROR MEDIA_ERROR MANIFEST_INCOMPATIBLE_CODECS_ERROR True) st))"

subsection \<open>Level selection\<close>

definition set_level :: "int \<Rightarrow> levelController \<Rightarrow> levelController" where
  "set_level newLevel0 st =
     (case lc_levels st of
        None \<Rightarrow> st
      | Some levels \<Rightarrow>
         (let newLevel = min newLevel0 (int (length levels) - 1)
          in if currentLevelIndex st \<noteq> Some newLevel \<or>
                (case at_index levels newLevel of None \<Rightarrow> True | Some lv \<Rightarrow> details lv = None)
             then (if newLevel \<ge> 0 \<and> newLevel < int (length levels)
                   then (let st1 = clearTimer st;
                             lv = levels ! nat newLevel;
                             st2 = (if currentLevelIndex st1 \<noteq> Some newLevel
                                    then trigger (LEVEL_SWITCHING lv newLevel)
                                           (st1\<lparr>currentLevelIndex := Some newLevel\<rparr>)
                                    else st1)
                         in if (case details lv of None \<Rightarrow> True | Some d \<Rightarrow> live d)
                            then trigger (LEVEL_LOADING (at_index (url lv) (urlId lv)) newLevel (urlId lv)) st2
                            else st2)
                   else trigger (ERROR OTHER_ERROR LEVEL_SWITCH_ERROR False) st)
             else st))"

subsection \<open>Error recovery\<close>

text \<open>
  \<open>recoverLevel\<close> returns the controller and the error event, both as mutated.
  \<^verbatim>\<open>this._levels[levelIndex]\<close> outside the array is \<^verbatim>\<open>undefined\<close>, and the increment of its
  \<open>loadError\<close> throws.
\<close>

definition update_level :: "int \<Rightarrow> (hlsLevel \<Rightarrow> hlsLevel) \<Rightarrow> levelController \<Rightarrow> levelController" where
  "update_level i f st = st\<lparr>lc_levels := map_option (\<lambda>ls. ls[nat i := f (ls ! nat i)]) (lc_levels st)\<rparr>"

definition recoverLevel ::
  "errorData \<Rightarrow> int \<Rightarrow> bool \<Rightarrow> bool \<Rightarrow> levelController \<Rightarrow> lc_error + levelController \<times> errorData" where
  "recoverLevel errorEvent levelIndex levelError fragError st =
     (case lc_levels st of
        None \<Rightarrow> Inl LevelsNotSet
      | Some levels \<Rightarrow>
         (case at_index levels levelIndex of
            None \<Rightarrow> Inl TypeError
          | Some level0 \<Rightarrow>
             (let level1 = level0\<lparr>loadError := loadError level0 + 1, fragmentError := fragError\<rparr>;
                  st1 = update_level levelIndex (\<lambda>_. level1) st
              in if levelError \<and> \<not> (int (levelRetryCount st1) + 1 \<le> levelLoadingMaxRetry (config st1))
                 then Inr (clearTimer (st1\<lparr>currentLevelIndex := None\<rparr>), errorEvent\<lparr>fatal := True\<rparr>)
                 else
                  (let delay = min (2 ^ levelRetryCount st1 * levelLoadingRetryDelay (config st1))
                                   (levelLoadingMaxRetryTimeout (config st1));
                       st2 = (if levelError
                              then (setTimer LoadLevel delay st1)\<lparr>levelRetryCount := levelRetryCount st1 + 1\<rparr>
                              else st1);
                       errorEvent2 = (if levelError then errorEvent\<lparr>levelRetry := Some True\<rparr> else errorEvent)
                   in if levelError \<or> fragError
                      then (let redundantLevels = int (length (url level1))
                            in if redundantLevels > 1 \<and> loadError level1 < redundantLevels
                               then Inr (update_level levelIndex
                                           (\<lambda>_. level1\<lparr>urlId := js_rem (urlId level1 + 1) redundantLevels,
                                                        details := None\<rparr>) st2, errorEvent2)
                               else if manualLevelIndex st2 = - 1
                               then (let nextLevel = (if levelIndex = 0 then int (length levels) - 1
                                                      else levelIndex - 1)
                                     in Inr (st2\<lparr>hls_nextAutoLevel := nextLevel,
                                                 currentLevelIndex := Some nextLevel\<rparr>, errorEvent2))
                               else if fragError
                               then Inr (st2\<lparr>currentLevelIndex := None\<rparr>, errorEvent2)
                               else Inr (st2, errorEvent2))
                      else Inr (st2, errorEvent2)))))"

text \<open>
  \<open>onError\<close>. The level index is \<^verbatim>\<open>data.frag.level\<close>, \<^verbatim>\<open>data.context.level\<close> or
  \<^verbatim>\<open>data.level\<close>, depending on the kind of error; reading the level of a missing
  fragment throws, and an index that is \<^verbatim>\<open>undefined\<close> leaves the error alone.
\<close>

definition onError :: "errorData \<Rightarrow> levelController \<Rightarrow> lc_error + levelController \<times> errorData" where
  "onError data st =
     (if fatal data
      then Inr (if err_type data = NETWORK_ERROR then clearTimer st else st, data)
      else (case (if err_details data \<in> {FRAG_LOAD_ERROR, FRAG_LOAD_TIMEOUT, KEY_LOAD_ERROR, KEY_LOAD_TIMEOUT}
                  then (case err_frag data of
                          None \<Rightarrow> Inl TypeError
                        | Some f \<Rightarrow> Inr (Some (frag_level f), False, True))
                  else if err_details data \<in> {LEVEL_LOAD_ERROR, LEVEL_LOAD_TIMEOUT}
                  then Inr (err_context_level data, True, False)
                  else if err_details data = REMUX_ALLOC_ERROR
                  then Inr (err_level data, True, False)
                  else Inr (None, False, False)) of
              Inl e \<Rightarrow> Inl e
            | Inr (levelIndex, levelError, fragError) \<Rightarrow>
               (case levelIndex of
                  None \<Rightarrow> Inr (st, data)
                | Some i \<Rightarrow> recoverLevel data i levelError fragError st)))"

definition onFragLoaded :: "fragment option \<Rightarrow> levelController \<Rightarrow> lc_error + levelController" where
  "onFragLoaded fr st =
     (case fr of
        None \<Rightarrow> Inr st
      | Some f \<Rightarrow>
          if frag_type f = ''main''
          then (case lc_levels st of
                  None \<Rightarrow> Inl LevelsNotSet
                | Some levels \<Rightarrow>
                   (case at_index levels (frag_level f) of
                      None \<Rightarrow> Inr st
                    | Some lv \<Rightarrow>
                        Inr ((update_level (frag_level f)
                               (\<lambda>_. lv\<lparr>fragmentError := False, loadError := 0\<rparr>) st)
                             \<lparr>levelRetryCount := 0\<rparr>)))
          else Inr st)"

subsection \<open>Live reload and low-latency reload\<close>

text \<open>
  \<^verbatim>\<open>computeReloadInterval\<close> is declared outside the sources and is a parameter.
  The handler mutates \<open>details\<close> (\<open>availabilityDelay\<close>, \<open>updated\<close>) before it hands it to
  the timer callback. A number is truthy when it is not zero.
\<close>

definition onLevelLoaded ::
  "(levelDetails \<Rightarrow> loaderStats \<Rightarrow> int) \<Rightarrow> levelLoadedData \<Rightarrow> levelController \<Rightarrow> lc_error + levelController" where
  "onLevelLoaded computeReloadInterval data st =
     (let lvl = lld_level data; details0 = lld_details data
      in if currentLevelIndex st \<noteq> Some lvl then Inr st
         else (case lc_levels st of
                 None \<Rightarrow> Inl LevelsNotSet
               | Some levels \<Rightarrow>
                  (case at_index levels lvl of
                     None \<Rightarrow> Inl TypeError
                   | Some curLevel \<Rightarrow>
                      (let st1 = (if \<not> fragmentError curLevel
                                  then (update_level lvl (\<lambda>_. curLevel\<lparr>loadError := 0\<rparr>) st)
                                         \<lparr>levelRetryCount := 0\<rparr>
                                  else st)
                       in if live details0
                          then (let curDetails = details curLevel;
                                    details1 = details0\<lparr>availabilityDelay :=
                                                 (case curDetails of None \<Rightarrow> None
                                                  | Some c \<Rightarrow> availabilityDelay c)\<rparr>;
                                    lowLatency = (serverControl details1 \<noteq> None \<and>
                                                  (case partTarget details1 of None \<Rightarrow> False | Some p \<Rightarrow> p \<noteq> 0));
                                    details2 =
                                      (if lowLatency
                                       then details1\<lparr>updated := Some
                                              (case curDetails of None \<Rightarrow> True
                                               | Some c \<Rightarrow> endSN details1 \<noteq> endSN c)\<rparr>
                                       else details1\<lparr>updated := Some
                                              (case curDetails of None \<Rightarrow> True
                                               | Some c \<Rightarrow> endSN details1 \<noteq> endSN c \<or>
                                                           d_url details1 \<noteq> d_url c)\<rparr>)
                                in if lowLatency \<and> canBlock (the (serverControl details2))
                                   then Inr (setTimer (LoadLowLatencyLevel details2 lvl (lld_id data))
                                               (max (computeReloadInterval details2 (lld_stats data) - 100) 100) st1)
                                   else Inr (setTimer LoadLevel
                                               (computeReloadInterval details2 (lld_stats data)) st1))
                          else Inr (clearTimer st1)))))"

definition loadLowLatencyLevel ::
  "levelDetails \<Rightarrow> int \<Rightarrow> int \<Rightarrow> levelController \<Rightarrow> lc_error + levelController" where
  "loadLowLatencyLevel detailsArg lvl ident st =
     (if canLoad st
      then (case serverControl detailsArg of
              None \<Rightarrow> Inl ServerControlRequired
            | Some sc \<Rightarrow>
               (let requestUrl0 = takeWhile (\<lambda>c. c \<noteq> CHR ''?'') (d_url detailsArg);
                    st1 = st\<lparr>currentSn := (if currentSn st = - 1 then endSN detailsArg else currentSn st),
                              currentPart := (if currentPart st = - 1 then 0 else currentPart st)\<rparr>;
                    msn0 = currentSn st1;
                    (msn1, st2) = (if updated detailsArg = Some True
                                   then (msn0 + 1, st1\<lparr>currentSn := msn0 + 1\<rparr>)
                                   else (msn0, st1));
                    requestUrl = requestUrl0 @ ''?_HLS_msn='' @ showInt msn1
                in Inr (trigger (LEVEL_LOADING (Some requestUrl) lvl ident) st2)))
      else Inr st)"

text \<open>
  A pending timeout fires: it leaves the table of pending timeouts and its callback
  runs. The field \<open>timer\<close> keeps the handle.
\<close>

definition fireTimer :: "nat \<Rightarrow> levelController \<Rightarrow> lc_error + levelController" where
  "fireTimer h st =
     (case filter (\<lambda>(h', _). h' = h) (timeouts st) of
        [] \<Rightarrow> Inr st
      | (_, callback, _) # _ \<Rightarrow>
         (let st1 = st\<lparr>timeouts := filter (\<lambda>(h', _). h' \<noteq> h) (timeouts st)\<rparr>
          in case callback of
               LoadLevel \<Rightarrow> loadLevel st1
             | LoadLowLatencyLevel d lvl ident \<Rightarrow> loadLowLatencyLevel d lvl ident st1))"

subsection \<open>Audio track re-binding and level removal\<close>

text \<open>
  \<^verbatim>\<open>this.hls.levels\<close> is the level array of this controller and \<^verbatim>\<open>this.hls.audioTracks\<close> the
  list of audio tracks of the player. The search loop returns the first index whose
  group id is the one asked for, and \<open>- 1\<close> when there is none.
\<close>

fun findGroupId :: "string list \<Rightarrow> string option \<Rightarrow> int \<Rightarrow> int" where
  "findGroupId [] audioGroupId i = - 1"
| "findGroupId (g # gs) audioGroupId i =
     (if Some g = audioGroupId then i else findGroupId gs audioGroupId (i + 1))"

definition onAudioTrackSwitched :: "int \<Rightarrow> levelController \<Rightarrow> lc_error + levelController" where
  "onAudioTrackSwitched ident st =
     (case at_index (hls_audioTracks st) ident of
        None \<Rightarrow> Inl TypeError
      | Some track \<Rightarrow>
         (let audioGroupId = mp_groupId track
          in case lc_levels st of
               None \<Rightarrow> Inl TypeError
             | Some levels \<Rightarrow>
                (case currentLevelIndex st of
                   None \<Rightarrow> Inr st
                 | Some cur \<Rightarrow>
                    (case at_index levels cur of
                       None \<Rightarrow> Inr st
                     | Some currentLevel \<Rightarrow>
                        (case audioGroupIds currentLevel of
                           None \<Rightarrow> Inr st
                         | Some gids \<Rightarrow>
                            (let newUrlId = findGroupId gids audioGroupId 0
                             in if newUrlId \<noteq> urlId currentLevel
                                then startLoad (update_level cur (\<lambda>_. currentLevel\<lparr>urlId := newUrlId\<rparr>) st)
                                else Inr st))))))"

text \<open>\<open>removeLevel (levelIndex, urlId)\<close>; \<open>urlId\<close> may be \<^verbatim>\<open>undefined\<close>.\<close>

definition removeLevel :: "int \<Rightarrow> int option \<Rightarrow> levelController \<Rightarrow> lc_error + levelController" where
  "removeLevel levelIndex urlIdArg st =
     (case lc_levels st of
        None \<Rightarrow> Inl LevelsNotSet
      | Some ls \<Rightarrow>
         (let edited = map (\<lambda>(index, lv).
                         if int index = levelIndex
                         then lv\<lparr>url := filter_indexed (\<lambda>u ident. Some (int ident) \<noteq> urlIdArg) (url lv),
                                 urlId := 0\<rparr>
                         else lv)
                       (filter (\<lambda>(index, lv). int index \<noteq> levelIndex \<or> (length (url lv) > 1 \<and> urlIdArg \<noteq> None))
                          (enumerate 0 ls));
              levels = map (\<lambda>(index, lv).
                         lv\<lparr>details := map_option
                               (\<lambda>d. d\<lparr>fragments := map (\<lambda>f. f\<lparr>frag_level := int index\<rparr>) (fragments d)\<rparr>)
                               (details lv)\<rparr>)
                       (enumerate 0 edited)
          in Inr (trigger (LEVELS_UPDATED levels) (st\<lparr>lc_levels := Some levels\<rparr>))))"

subsection \<open>Running handlers one after the other\<close>

definition and_then :: "lc_error + 'a \<Rightarrow> ('a \<Rightarrow> lc_error + 'b) \<Rightarrow> lc_error + 'b" where
  "and_then r f = (case r of Inl e \<Rightarrow> Inl e | Inr x \<Rightarrow> f x)"

subsection \<open>A scenario: three level load timeouts, then a fourth\<close>

definition s3_config :: hlsConfig where
  "s3_config = \<lparr> levelLoadingMaxRetry = 3, levelLoadingRetryDelay = 1000,
                  levelLoadingMaxRetryTimeout = 8000, startLevelConfig = None \<rparr>"

definition s3_level :: hlsLevel where
  "s3_level = newLevel \<lparr> lp_attrs = None, lp_audioCodec = None, lp_bitrate = 500000,
                         lp_url = ''http://example.com/low.m3u8'', lp_videoCodec = None \<rparr>"

definition s3_start :: levelController where
  "s3_start = (newLevelController False s3_config)
                \<lparr>lc_levels := Some [s3_level], canLoad := True, currentLevelIndex := Some 0\<rparr>"

definition s3_error :: errorData where
  "s3_error = \<lparr> err_type = NETWORK_ERROR, err_details = LEVEL_LOAD_TIMEOUT, fatal = False,
                 levelRetry = None, err_frag = None, err_context_level = Some 0, err_level = None \<rparr>"

text \<open>
  Each error is followed by the firing of the timer that it armed. The result lists,
  for each of the first three errors, the pending timeouts and the flag \<open>levelRetry\<close>
  after the error, and for the fourth the flag \<open>fatal\<close>, the current level index, the
  timer and the pending timeouts.
\<close>

definition s3_run ::
  "lc_error + ((timerCallback \<times> int) list \<times> bool option) \<times> ((timerCallback \<times> int) list \<times> bool option) \<times>
     ((timerCallback \<times> int) list \<times> bool option) \<times> (bool \<times> int option \<times> nat option \<times> (timerCallback \<times> int) list)" where
  "s3_run =
     and_then (onError s3_error s3_start) (\<lambda>(s1, e1).
     and_then (fireTimer 1 s1) (\<lambda>s1'.
     and_then (onError s3_error s1') (\<lambda>(s2, e2).
     and_then (fireTimer 2 s2) (\<lambda>s2'.
     and_then (onError s3_error s2') (\<lambda>(s3, e3).
     and_then (fireTimer 3 s3) (\<lambda>s3'.
     and_then (onError s3_error s3') (\<lambda>(s4, e4).
       Inr ((map snd (timeouts s1), levelRetry e1),
            (map snd (timeouts s2), levelRetry e2),
            (map snd (timeouts s3), levelRetry e3),
            (fatal e4, currentLevelIndex s4, timer s4, map snd (timeouts s4))))))))))"

subsection \<open>A scenario: a low-latency playlist ending at sequence number 42\<close>

definition s7_details :: levelDetails where
  "s7_details = (newLevelDetails ''http://example.com/live.m3u8?token=abc'')
                  \<lparr>endSN := 42,
                   serverControl := Some \<lparr>canBlock = True, canSkipUntil = 0, holdBack = 0, partHoldBack = 3\<rparr>,
                   partTarget := Some 1\<rparr>"

definition s7_loaded :: levelLoadedData where
  "s7_loaded = \<lparr> lld_level = 0, lld_details = s7_details, lld_id = 0,
                  lld_stats = \<lparr>trequest = 0, tfirst = 10, tload = 20\<rparr> \<rparr>"

text \<open>The level is loaded, the low-latency timer fires, and the events triggered are kept.\<close>

definition s7_run :: "(levelDetails \<Rightarrow> loaderStats \<Rightarrow> int) \<Rightarrow> lc_error + (nat \<times> int) list \<times> lc_event list" where
  "s7_run computeReloadInterval =
     and_then (onLevelLoaded computeReloadInterval s7_loaded s3_start) (\<lambda>s1.
     and_then (fireTimer 1 s1) (\<lambda>s2.
       Inr (map (\<lambda>(h, _, delay). (h, delay)) (timeouts s1), emitted s2)))"

subsection \<open>Two manifests\<close>

text \<open>A media sink that supports every codec.\<close>

definition everyCodecSupported :: "string \<Rightarrow> codecKind \<Rightarrow> bool" where
  "everyCodecSupported codec kind = True"

text \<open>The levels of a controller as bitrates, and as bitrates with the number of URLs.\<close>

definition levelBitrates :: "levelController \<Rightarrow> int list option" where
  "levelBitrates st = map_option (map bitrate) (lc_levels st)"

definition levelUrlCounts :: "levelController \<Rightarrow> (int \<times> nat) list option" where
  "levelUrlCounts st = map_option (map (\<lambda>lv. (bitrate lv, length (url lv)))) (lc_levels st)"

text \<open>Bitrates 1500000, 500000 and 1500000 again (a backup of the first entry).\<close>

definition s1_manifest :: manifestLoadedData where
  "s1_manifest =
     \<lparr> mld_levels =
         [\<lparr>lp_attrs = None, lp_audioCodec = Some ''mp4a.40.2'', lp_bitrate = 1500000,
           lp_url = ''http://a.example.com/hi.m3u8'', lp_videoCodec = Some ''avc1.42e01e''\<rparr>,
          \<lparr>lp_attrs = None, lp_audioCodec = Some ''mp4a.40.2'', lp_bitrate = 500000,
           lp_url = ''http://a.example.com/lo.m3u8'', lp_videoCodec = Some ''avc1.42e01e''\<rparr>,
          \<lparr>lp_attrs = None, lp_audioCodec = Some ''mp4a.40.2'', lp_bitrate = 1500000,
           lp_url = ''http://b.example.com/hi.m3u8'', lp_videoCodec = Some ''avc1.42e01e''\<rparr>],
       mld_audioTracks = None, mld_url = ''http://a.example.com/master.m3u8'',
       mld_stats = \<lparr>trequest = 0, tfirst = 10, tload = 20\<rparr> \<rparr>"

text \<open>An audio-only rendition at 64000 first, then an audio and video rendition at 800000.\<close>

definition audioFirst_manifest :: manifestLoadedData where
  "audioFirst_manifest =
     \<lparr> mld_levels =
         [\<lparr>lp_attrs = None, lp_audioCodec = Some ''mp4a.40.2'', lp_bitrate = 64000,
           lp_url = ''http://a.example.com/audio.m3u8'', lp_videoCodec = None\<rparr>,
          \<lparr>lp_attrs = None, lp_audioCodec = Some ''mp4a.40.2'', lp_bitrate = 800000,
           lp_url = ''http://a.example.com/video.m3u8'', lp_videoCodec = Some ''avc1.42e01e''\<rparr>],
       mld_audioTracks = None, mld_url = ''http://a.example.com/master.m3u8'',
       mld_stats = \<lparr>trequest = 0, tfirst = 10, tload = 20\<rparr> \<rparr>"

text \<open>The levels that survive from the first manifest, in manifest order.\<close>

definition s1_survivors :: "hlsLevel list" where
  "s1_survivors =
     [(newLevel (mld_levels s1_manifest ! 0))
        \<lparr>url := [''http://a.example.com/hi.m3u8'', ''http://b.example.com/hi.m3u8'']\<rparr>,
      newLevel (mld_levels s1_manifest ! 1)]"

subsection \<open>The invariant on the active URL of a level\<close>

definition urlId_ok :: "hlsLevel \<Rightarrow> bool" where
  "urlId_ok lv \<longleftrightarrow> 0 \<le> urlId lv \<and> urlId lv < int (length (url lv))"

definition levels_ok :: "levelController \<Rightarrow> bool" where
  "levels_ok st \<longleftrightarrow> (case lc_levels st of None \<Rightarrow> True | Some ls \<Rightarrow> list_all urlId_ok ls)"

text \<open>
  A manifest with one rendition in the audio group \<open>aac\<close>, and a player whose audio
  tracks are one of the group \<open>aac\<close> and one of the group \<open>mp3\<close>.
\<close>

definition audioGroup_manifest :: manifestLoadedData where
  "audioGroup_manifest =
     \<lparr> mld_levels =
         [\<lparr>lp_attrs = Some \<lparr>attr_AUDIO = Some ''aac'', attr_SUBTITLES = None\<rparr>,
           lp_audioCodec = Some ''mp4a.40.2'', lp_bitrate = 800000,
           lp_url = ''http://a.example.com/video.m3u8'', lp_videoCodec = Some ''avc1.42e01e''\<rparr>],
       mld_audioTracks = None, mld_url = ''http://a.example.com/master.m3u8'',
       mld_stats = \<lparr>trequest = 0, tfirst = 10, tload = 20\<rparr> \<rparr>"

definition audioGroup_start :: levelController where
  "audioGroup_start =
     set_level 0
       (onManifestLoaded everyCodecSupported audioGroup_manifest
          ((newLevelController False s3_config)
             \<lparr>hls_audioTracks :=
                [\<lparr>mp_id = 0, mp_groupId = Some ''aac'', mp_audioCodec = None, mp_url = None\<rparr>,
                 \<lparr>mp_id = 1, mp_groupId = Some ''mp3'', mp_audioCodec = None, mp_url = None\<rparr>]\<rparr>))"

section \<open>Properties\<close>

subsection \<open>The push information of LevelDetails\<close>

lemma greedy_caps: "(rest, c) \<in> set (greedy p inp caps) \<Longrightarrow> c = caps"
  by (auto simp: greedy_def)

lemma rx_match_caps_length:
  "(rest, c) \<in> set (rx_match r inp caps) \<Longrightarrow> length c = length caps"
proof (induction r arbitrary: rest c inp caps)
  case (Lit s)
  then show ?case by (simp split: if_splits)
next
  case DigitsPlus
  then show ?case by (auto dest: greedy_caps)
next
  case AnyPlus
  then show ?case by (auto dest: greedy_caps)
next
  case (Cat a b)
  from Cat.prems obtain rest' c' where a: "(rest', c') \<in> set (rx_match a inp caps)"
    and b: "(rest, c) \<in> set (rx_match b rest' c')"
    by auto
  from Cat.IH(2) [OF b] Cat.IH(1) [OF a] show ?case by simp
next
  case (Opt a)
  then show ?case by auto
next
  case (Group k a)
  from Group.prems obtain c' where a: "(rest, c') \<in> set (rx_match a inp caps)"
    and c: "c = c'[k := Some (take (length inp - length rest) inp)]"
    by auto
  from Group.IH [OF a] c show ?case by simp
qed

text \<open>The array that \<open>match\<close> returns has one entry more than the pattern has groups.\<close>

lemma js_match_length: "js_match r inp = Some ps \<Longrightarrow> length ps = Suc (rx_groups r)"
proof (induction inp)
  case Nil
  show ?case
  proof (cases "rx_match r [] (replicate (rx_groups r) None)")
    case Nil
    with Nil.prems show ?thesis by simp
  next
    case (Cons x xs)
    obtain rest caps where x: "x = (rest, caps)" by (cases x)
    with Cons have "(rest, caps) \<in> set (rx_match r [] (replicate (rx_groups r) None))" by simp
    then have "length caps = rx_groups r" by (simp add: rx_match_caps_length)
    with Nil.prems Cons x show ?thesis by auto
  qed
next
  case (Cons ch inp)
  show ?case
  proof (cases "rx_match r (ch # inp) (replicate (rx_groups r) None)")
    case Nil
    with Cons.prems have "js_match r inp = Some ps" by simp
    then show ?thesis by (rule Cons.IH)
  next
    case (Cons x xs)
    obtain rest caps where x: "x = (rest, caps)" by (cases x)
    with Cons have "(rest, caps) \<in> set (rx_match r (ch # inp) (replicate (rx_groups r) None))" by simp
    then have "length caps = rx_groups r" by (simp add: rx_match_caps_length)
    with Cons.prems Cons x show ?thesis by auto
  qed
qed

lemma pushRegex_groups: "rx_groups pushRegex = 3"
  by (simp add: pushRegex_def)

lemma newLevelDetails_push_unset: "push (newLevelDetails baseUrl) = None"
proof (cases "js_match pushRegex baseUrl")
  case None
  then show ?thesis by (simp add: newLevelDetails_def levelDetails_fields_def)
next
  case (Some ps)
  then have "length ps = 4" using js_match_length [OF Some] by (simp add: pushRegex_groups)
  with Some show ?thesis by (simp add: newLevelDetails_def levelDetails_fields_def)
qed

text \<open>
  C9 does not hold of the code. The base URL below embeds \<open>_HLS_msn=5\<close>, \<open>_HLS_part=2\<close>
  and \<open>_HLS_push=1\<close>, and the pattern matches it with the captures \<open>5\<close> and \<open>2\<close>; but the
  array of a match has four entries (the match and three groups), the constructor asks
  for three, and \<open>push\<close> is left unset instead of \<open>{ msn: 5, part: 2 }\<close>.
\<close>

theorem newLevelDetails_push_not_set:
  "js_match pushRegex ''http://example.com/live.m3u8?_HLS_msn=5&_HLS_part=2&_HLS_push=1'' =
     Some [Some ''_HLS_msn=5&_HLS_part=2&_HLS_push=1'', Some ''5'', Some ''&_HLS_part=2'', Some ''2''] \<and>
   push (newLevelDetails ''http://example.com/live.m3u8?_HLS_msn=5&_HLS_part=2&_HLS_push=1'') = None"
proof -
  have "js_match pushRegex ''http://example.com/live.m3u8?_HLS_msn=5&_HLS_part=2&_HLS_push=1'' =
     Some [Some ''_HLS_msn=5&_HLS_part=2&_HLS_push=1'', Some ''5'', Some ''&_HLS_part=2'', Some ''2'']"
    by code_simp
  then show ?thesis
    by (simp only: newLevelDetails_push_unset simp_thms)
qed

subsection \<open>The playback rate written on a tick\<close>

lemma sigmoid_eq: "sigmoid x x0 = 2 / (1 + exp (- 0.5 * (x - x0)))"
  by (simp add: sigmoid_def sigmoid_L_def sigmoid_k_def)

lemma sigmoid_pos: "0 < sigmoid x x0"
proof -
  have "0 < 1 + exp (- 0.5 * (x - x0))"
    using exp_gt_zero [of "- 0.5 * (x - x0)"] by linarith
  then show ?thesis
    unfolding sigmoid_eq by simp
qed

lemma sigmoid_less_2: "sigmoid x x0 < 2"
proof -
  define t where "t = exp (- 0.5 * (x - x0))"
  have t: "0 < t" unfolding t_def by (rule exp_gt_zero)
  then have "2 / (1 + t) < 2"
    by (simp add: field_simps)
  then show ?thesis
    unfolding sigmoid_eq t_def .
qed

lemma sigmoid_eq_1_iff: "sigmoid x x0 = 1 \<longleftrightarrow> x = x0"
proof -
  define t where "t = exp (- 0.5 * (x - x0))"
  have t: "0 < t" unfolding t_def by (rule exp_gt_zero)
  then have "2 / (1 + t) = 1 \<longleftrightarrow> t = 1"
    by (auto simp: field_simps)
  also have "t = 1 \<longleftrightarrow> - 0.5 * (x - x0) = 0"
    unfolding t_def by (rule exp_eq_one_iff)
  also have "\<dots> \<longleftrightarrow> x = x0" by simp
  finally show ?thesis
    unfolding sigmoid_eq t_def .
qed

lemma doTick_in_band:
  assumes "media c = Some m"
    and "bufferLength = len (bufferInfoOf m (currentTime m) (maxBufferHole c))"
    and "0 \<le> latencyTarget - bufferLength \<and> latencyTarget - bufferLength \<le> refreshLatency"
  shows "media (doTick bufferInfoOf c) = Some (m\<lparr>playbackRate := 1\<rparr>)"
proof -
  from assms(3) have "\<not> (latencyTarget - bufferLength < 0 \<or> latencyTarget - bufferLength > refreshLatency)"
    by linarith
  then show ?thesis
    unfolding assms(2) using assms(1) by (simp add: doTick_def Let_def)
qed

lemma doTick_out_of_band:
  assumes "media c = Some m"
    and "bufferLength = len (bufferInfoOf m (currentTime m) (maxBufferHole c))"
    and "\<not> (0 \<le> latencyTarget - bufferLength \<and> latencyTarget - bufferLength \<le> refreshLatency)"
  shows "media (doTick bufferInfoOf c) = Some (m\<lparr>playbackRate := sigmoid bufferLength latencyTarget\<rparr>)"
proof -
  from assms(3) have "latencyTarget - bufferLength < 0 \<or> latencyTarget - bufferLength > refreshLatency"
    by linarith
  then show ?thesis
    unfolding assms(2) using assms(1) by (simp add: doTick_def Let_def)
qed

text \<open>
  C5. On a tick with media attached, the rate written to the media element is 1
  exactly when \<open>0 \<le> latencyTarget - bufferLength \<le> refreshLatency\<close>, and otherwise it is
  \<open>sigmoid bufferLength latencyTarget = 2 / (1 + exp (- 0.5 * (bufferLength - latencyTarget)))\<close>;
  in all cases it lies in \<open>(0, 2]\<close>. Numbers are reals here.
\<close>

theorem doTick_playbackRate:
  assumes "media c = Some m"
    and "bufferLength = len (bufferInfoOf m (currentTime m) (maxBufferHole c))"
  shows "\<exists>m'. media (doTick bufferInfoOf c) = Some m' \<and>
     (playbackRate m' = 1 \<longleftrightarrow>
        0 \<le> latencyTarget - bufferLength \<and> latencyTarget - bufferLength \<le> refreshLatency) \<and>
     (\<not> (0 \<le> latencyTarget - bufferLength \<and> latencyTarget - bufferLength \<le> refreshLatency) \<longrightarrow>
        playbackRate m' = sigmoid bufferLength latencyTarget \<and>
        playbackRate m' = 2 / (1 + exp (- 0.5 * (bufferLength - latencyTarget)))) \<and>
     0 < playbackRate m' \<and> playbackRate m' \<le> 2"
proof (cases "0 \<le> latencyTarget - bufferLength \<and> latencyTarget - bufferLength \<le> refreshLatency")
  case True
  then have "media (doTick bufferInfoOf c) = Some (m\<lparr>playbackRate := 1\<rparr>)"
    using assms by (intro doTick_in_band [where bufferLength = bufferLength])
  with True show ?thesis by simp
next
  case False
  then have r: "media (doTick bufferInfoOf c) =
      Some (m\<lparr>playbackRate := sigmoid bufferLength latencyTarget\<rparr>)"
    using assms by (intro doTick_out_of_band [where bufferLength = bufferLength])
  from False have "bufferLength \<noteq> latencyTarget"
    by (auto simp: refreshLatency_def)
  then have "sigmoid bufferLength latencyTarget \<noteq> 1"
    by (simp add: sigmoid_eq_1_iff)
  moreover have "sigmoid bufferLength latencyTarget \<le> 2"
    using sigmoid_less_2 [of bufferLength latencyTarget] by simp
  moreover note sigmoid_pos [of bufferLength latencyTarget]
    sigmoid_eq [of bufferLength latencyTarget]
  ultimately show ?thesis
    using r False by simp
qed

theorem doTick_playbackRate_witness:
  "media \<lparr>media = Some \<lparr>currentTime = 10, playbackRate = 1\<rparr>, maxBufferHole = 0.5, ticking = True\<rparr> =
     Some \<lparr>currentTime = 10, playbackRate = 1\<rparr> \<and>
   media (doTick (\<lambda>m pos hole. \<lparr>len = 0, bi_start = pos, bi_end = pos\<rparr>)
            \<lparr>media = Some \<lparr>currentTime = 10, playbackRate = 1\<rparr>, maxBufferHole = 0.5, ticking = True\<rparr>) =
     Some \<lparr>currentTime = 10, playbackRate = 2 / (1 + exp (3 / 2))\<rparr>"
proof -
  have h: "media \<lparr>media = Some \<lparr>currentTime = 10, playbackRate = 1\<rparr>, maxBufferHole = 0.5, ticking = True\<rparr> =
     Some \<lparr>currentTime = 10, playbackRate = 1\<rparr>"
    by simp
  have l: "(0::real) = len ((\<lambda>m pos hole. \<lparr>len = 0, bi_start = pos, bi_end = pos\<rparr>)
      \<lparr>currentTime = 10, playbackRate = 1\<rparr> (currentTime \<lparr>currentTime = 10, playbackRate = 1\<rparr>)
      (maxBufferHole \<lparr>media = Some \<lparr>currentTime = 10, playbackRate = 1\<rparr>, maxBufferHole = 0.5, ticking = True\<rparr>))"
    by simp
  have d: "\<not> (0 \<le> latencyTarget - 0 \<and> latencyTarget - 0 \<le> refreshLatency)"
    by (simp add: latencyTarget_def refreshLatency_def)
  from doTick_playbackRate [where bufferInfoOf = "\<lambda>m pos hole. \<lparr>len = 0, bi_start = pos, bi_end = pos\<rparr>"
         and bufferLength = 0, OF h l] obtain m' where
    m: "media (doTick (\<lambda>m pos hole. \<lparr>len = 0, bi_start = pos, bi_end = pos\<rparr>)
            \<lparr>media = Some \<lparr>currentTime = 10, playbackRate = 1\<rparr>, maxBufferHole = 0.5, ticking = True\<rparr>) = Some m'"
    and r: "\<not> (0 \<le> latencyTarget - 0 \<and> latencyTarget - 0 \<le> refreshLatency) \<longrightarrow>
        playbackRate m' = 2 / (1 + exp (- 0.5 * (0 - latencyTarget)))"
    by blast
  from r d have "playbackRate m' = 2 / (1 + exp (3 / 2))"
    by (simp add: latencyTarget_def)
  moreover have "currentTime m' = 10"
    using m by (auto simp: doTick_def Let_def split: if_splits)
  ultimately have "m' = \<lparr>currentTime = 10, playbackRate = 2 / (1 + exp (3 / 2))\<rparr>"
    by simp
  with h m show ?thesis by simp
qed

subsection \<open>A synchronous failure of the head operation\<close>

text \<open>What holds in general: the error callback runs with the thrown value, and the head leaves the queue when the buffer is absent or idle.\<close>

lemma executeNext_throw_reports:
  assumes "queues q type = operation # rest"
    and "execute operation (buffers q) = (buffers', Some e)"
  shows "trace (executeNext type q) = trace q @ [Execute (op_label operation), OnError (op_label operation) e]"
  using assms by (simp add: executeNext_def Let_def)

lemma executeNext_throw_idle_shifts:
  assumes "queues q type = operation # rest"
    and "execute operation (buffers q) = (buffers', Some e)"
    and "buffers q type = None \<or> (\<forall>b. buffers' type = Some b \<longrightarrow> \<not> updating b)"
  shows "queues (executeNext type q) type = rest"
proof -
  from assms(3) have "buffers q type = None \<or> (case buffers' type of None \<Rightarrow> True | Some b \<Rightarrow> \<not> updating b)"
    by (auto split: option.splits)
  with assms(1,2) show ?thesis
    by (simp add: executeNext_def Let_def)
qed

text \<open>
  C1 does not hold of the code. On an idle video buffer, \<open>X\<close> is appended and starts an
  update; \<open>A\<close>, whose \<open>execute\<close> throws, and \<open>B\<close> are appended behind it. When the update
  ends, \<open>A\<close> is run, \<open>A.onError\<close> receives the thrown value and \<open>A\<close> is removed, but
  \<open>B.execute\<close> is not dispatched: \<open>B\<close> stays at the head of the queue of an idle buffer.
\<close>

theorem executeNext_throw_leaves_next_undispatched:
  "trace (updateend Video
      (append_op (startsUpdate ''B'' Video) Video
      (append_op (throwsAtOnce ''A'' ''boom'') Video
      (append_op (startsUpdate ''X'' Video) Video
      (newBufferOperationQueue ((\<lambda>_. None)(Video := Some \<lparr>updating = False\<rparr>))))))) =
     [Execute ''X'', Execute ''A'', OnError ''A'' ''boom''] \<and>
   map op_label (queues (updateend Video
      (append_op (startsUpdate ''B'' Video) Video
      (append_op (throwsAtOnce ''A'' ''boom'') Video
      (append_op (startsUpdate ''X'' Video) Video
      (newBufferOperationQueue ((\<lambda>_. None)(Video := Some \<lparr>updating = False\<rparr>))))))) Video) = [''B''] \<and>
   buffers (updateend Video
      (append_op (startsUpdate ''B'' Video) Video
      (append_op (throwsAtOnce ''A'' ''boom'') Video
      (append_op (startsUpdate ''X'' Video) Video
      (newBufferOperationQueue ((\<lambda>_. None)(Video := Some \<lparr>updating = False\<rparr>))))))) Video =
     Some \<lparr>updating = False\<rparr>"
  by (simp add: updateend_def shiftAndExecuteNext_def append_op_def executeNext_def
      newBufferOperationQueue_def startsUpdate_def throwsAtOnce_def Let_def)

subsection \<open>Cue de-duplication\<close>


















subsection \<open>The synthetic initial PTS on FRAG_PARSING_INIT_SEGMENT\<close>

text \<open>
  The field \<open>initPTS\<close> holds an array from construction on, and every handler that
  assigns it stores an array again.
\<close>

lemma initPTS_defined_new: "initPTS (newTimelineController cfg) \<noteq> None"
  by (simp add: newTimelineController_def)

lemma initPTS_defined_onManifestLoaded: "initPTS (tl_onManifestLoaded subtitles tc) \<noteq> None"
  by (simp add: tl_onManifestLoaded_def Let_def)

lemma initPTS_onFragLoaded: "initPTS (tl_onFragLoaded d tc) = initPTS tc"
  by (simp add: tl_onFragLoaded_def Let_def)

lemma initPTS_redispatch:
  "initPTS (foldl (\<lambda>t d. tl_onFragLoaded d (t\<lparr>effects := effects t @ [OnFragLoaded d]\<rparr>)) tc ds) =
     initPTS tc"
  by (induction ds arbitrary: tc) (simp_all add: initPTS_onFragLoaded)

lemma initPTS_defined_onInitPtsFound:
  "initPTS tc \<noteq> None \<Longrightarrow> initPTS (onInitPtsFound data tc) \<noteq> None"
  by (simp add: onInitPtsFound_def Let_def initPTS_redispatch)

lemma initPTS_defined_addCues:
  "initPTS tc \<noteq> None \<Longrightarrow> initPTS (addCues fsub fdiv trackName s e screen tc) \<noteq> None"
  by (simp add: addCues_def Let_def split: prod.split)

lemma onFragParsingInitSegment_noop:
  "initPTS tc \<noteq> None \<Longrightarrow> onFragParsingInitSegment tc = tc"
  unfolding onFragParsingInitSegment_def by (rule if_not_P)

text \<open>
  C8 does not hold of the code. On a controller that has never seen an initial PTS
  (the array \<open>initPTS\<close> is empty) and holds a subtitle fragment waiting for one,
  FRAG_PARSING_INIT_SEGMENT changes nothing: no initial PTS is stored and the
  INIT_PTS_FOUND handling is not run, although running it with the sentinel fragment
  and \<open>initPTS = 90000\<close> would have re-dispatched the waiting fragment (which, with no
  initial PTS stored for its discontinuity, goes back into the queue).
\<close>

theorem onFragParsingInitSegment_does_nothing:
  "onFragParsingInitSegment
     ((newTimelineController nativeConfig)
        \<lparr>unparsedVttFrags :=
           [\<lparr>frag = \<lparr>frag_type = ''subtitle'', frag_sn = 1, frag_cc = 0, frag_level = 0,
                     frag_start = 0, frag_decryptdata = None\<rparr>,
             payloadByteLength = 100\<rparr>]\<rparr>) =
   (newTimelineController nativeConfig)
        \<lparr>unparsedVttFrags :=
           [\<lparr>frag = \<lparr>frag_type = ''subtitle'', frag_sn = 1, frag_cc = 0, frag_level = 0,
                     frag_start = 0, frag_decryptdata = None\<rparr>,
             payloadByteLength = 100\<rparr>]\<rparr> \<and>
   initPTS (onFragParsingInitSegment
     ((newTimelineController nativeConfig)
        \<lparr>unparsedVttFrags :=
           [\<lparr>frag = \<lparr>frag_type = ''subtitle'', frag_sn = 1, frag_cc = 0, frag_level = 0,
                     frag_start = 0, frag_decryptdata = None\<rparr>,
             payloadByteLength = 100\<rparr>]\<rparr>)) = Some [] \<and>
   effects (onInitPtsFound \<lparr>ipf_id = [], ipf_frag = newFragment, ipf_initPTS = 90000\<rparr>
     ((newTimelineController nativeConfig)
        \<lparr>unparsedVttFrags :=
           [\<lparr>frag = \<lparr>frag_type = ''subtitle'', frag_sn = 1, frag_cc = 0, frag_level = 0,
                     frag_start = 0, frag_decryptdata = None\<rparr>,
             payloadByteLength = 100\<rparr>]\<rparr>)) =
     [OnFragLoaded \<lparr>frag = \<lparr>frag_type = ''subtitle'', frag_sn = 1, frag_cc = 0, frag_level = 0,
                             frag_start = 0, frag_decryptdata = None\<rparr>,
                    payloadByteLength = 100\<rparr>] \<and>
   unparsedVttFrags (onInitPtsFound \<lparr>ipf_id = [], ipf_frag = newFragment, ipf_initPTS = 90000\<rparr>
     ((newTimelineController nativeConfig)
        \<lparr>unparsedVttFrags :=
           [\<lparr>frag = \<lparr>frag_type = ''subtitle'', frag_sn = 1, frag_cc = 0, frag_level = 0,
                     frag_start = 0, frag_decryptdata = None\<rparr>,
             payloadByteLength = 100\<rparr>]\<rparr>)) =
     [\<lparr>frag = \<lparr>frag_type = ''subtitle'', frag_sn = 1, frag_cc = 0, frag_level = 0,
               frag_start = 0, frag_decryptdata = None\<rparr>,
       payloadByteLength = 100\<rparr>]"
  by (simp add: onFragParsingInitSegment_def onInitPtsFound_def newTimelineController_def
      tl_onFragLoaded_def initPTS_known_def initPTS_array_def Let_def)

subsection \<open>CEA-608 extraction never reads out of range\<close>

lemma and_7F_le: "(0x7F :: byte) AND b \<le> 0x7F"
  by (rule word_and_le2)

lemma cc_field_ok_Nil: "cc_field_ok []"
  by (simp add: cc_field_ok_def)

lemma cc_field_ok_append_pair:
  assumes f: "cc_field_ok f" and a: "a \<le> 0x7F" and b: "b \<le> 0x7F" and nz: "\<not> (a = 0 \<and> b = 0)"
  shows "cc_field_ok (f @ [a, b])"
proof -
  from f have ev: "even (length f)" by (simp add: cc_field_ok_def)
  have pairs: "\<not> ((f @ [a, b]) ! (2 * i) = 0 \<and> (f @ [a, b]) ! (2 * i + 1) = 0)"
    if "2 * i + 1 < length (f @ [a, b])" for i
  proof (cases "2 * i + 1 < length f")
    case True
    with f show ?thesis by (simp add: cc_field_ok_def nth_append)
  next
    case False
    from ev obtain k where k: "length f = 2 * k" by (auto elim: evenE)
    with False that have "i = k" by simp
    with k nz show ?thesis by (simp add: nth_append)
  qed
  from f a b ev pairs show ?thesis
    unfolding cc_field_ok_def by auto
qed

lemma cc_fields_update:
  assumes ok: "\<forall>f \<in> set acc. cc_field_ok f" and k: "k < length acc"
    and a: "a \<le> 0x7F" and b: "b \<le> 0x7F" and nz: "\<not> (a = 0 \<and> b = 0)"
  shows "\<forall>f \<in> set (acc[k := acc ! k @ [a, b]]). cc_field_ok f"
proof
  fix f assume f: "f \<in> set (acc[k := acc ! k @ [a, b]])"
  have "set (acc[k := acc ! k @ [a, b]]) \<subseteq> insert (acc ! k @ [a, b]) (set acc)"
    by (rule set_update_subset_insert)
  with f have "f \<in> insert (acc ! k @ [a, b]) (set acc)"
    by (rule subsetD [rotated])
  then have cases: "f = acc ! k @ [a, b] \<or> f \<in> set acc"
    by (simp only: insert_iff)
  from k have "acc ! k \<in> set acc" by (rule nth_mem)
  with ok have "cc_field_ok (acc ! k)" by (rule bspec)
  then have new: "cc_field_ok (acc ! k @ [a, b])"
    using a b nz by (rule cc_field_ok_append_pair)
  from cases show "cc_field_ok f"
  proof
    assume "f = acc ! k @ [a, b]"
    with new show ?thesis by (simp only:)
  next
    assume "f \<in> set acc"
    with ok show ?thesis by (rule bspec)
  qed
qed

lemma cea608_loop_Suc:
  assumes "position + 3 \<le> length byteArray"
  shows "cea608_loop byteArray (Suc n) position acc =
      (if 0x7F AND byteArray ! (position + 1) = 0 \<and> 0x7F AND byteArray ! (position + 2) = 0
       then cea608_loop byteArray n (position + 3) acc
       else if 4 AND byteArray ! position \<noteq> 0 \<and>
               (unat (3 AND byteArray ! position) = 0 \<or> unat (3 AND byteArray ! position) = 1)
       then cea608_loop byteArray n (position + 3)
              (acc[unat (3 AND byteArray ! position) :=
                     acc ! unat (3 AND byteArray ! position) @
                     [0x7F AND byteArray ! (position + 1), 0x7F AND byteArray ! (position + 2)]])
       else cea608_loop byteArray n (position + 3) acc)"
proof -
  from assms have rd: "byteAt byteArray position = Some (byteArray ! position)"
    "byteAt byteArray (position + 1) = Some (byteArray ! (position + 1))"
    "byteAt byteArray (position + 2) = Some (byteArray ! (position + 2))"
    unfolding byteAt_def by simp_all
  show ?thesis
    by (simp only: cea608_loop.simps rd option.case Let_def)
qed

lemma cea608_loop_ok:
  assumes "position + 3 * n \<le> length byteArray"
    and "length acc = 2" and "\<forall>f \<in> set acc. cc_field_ok f"
  shows "\<exists>r. cea608_loop byteArray n position acc = Some r \<and> length r = 2 \<and>
           (\<forall>f \<in> set r. cc_field_ok f)"
  using assms
proof (induction n arbitrary: position acc)
  case 0
  then show ?case by simp
next
  case (Suc n)
  define k where "k = unat (3 AND byteArray ! position)"
  define c1 where "c1 = 0x7F AND byteArray ! (position + 1)"
  define c2 where "c2 = 0x7F AND byteArray ! (position + 2)"
  define v where "v \<longleftrightarrow> 4 AND byteArray ! position \<noteq> 0"
  have c: "c1 \<le> 0x7F" "c2 \<le> 0x7F"
    unfolding c1_def c2_def by (rule and_7F_le)+
  from Suc.prems(1) have here: "position + 3 \<le> length byteArray"
    and rest: "(position + 3) + 3 * n \<le> length byteArray" by simp_all
  have eq: "cea608_loop byteArray (Suc n) position acc =
      (if c1 = 0 \<and> c2 = 0 then cea608_loop byteArray n (position + 3) acc
       else if v \<and> (k = 0 \<or> k = 1)
       then cea608_loop byteArray n (position + 3) (acc[k := acc ! k @ [c1, c2]])
       else cea608_loop byteArray n (position + 3) acc)"
    unfolding k_def c1_def c2_def v_def by (rule cea608_loop_Suc [OF here])
  have skip: "\<exists>r. cea608_loop byteArray n (position + 3) acc = Some r \<and> length r = 2 \<and>
           (\<forall>f \<in> set r. cc_field_ok f)"
    by (rule Suc.IH [OF rest Suc.prems(2) Suc.prems(3)])
  have push: "\<exists>r. cea608_loop byteArray n (position + 3) (acc[k := acc ! k @ [c1, c2]]) = Some r
           \<and> length r = 2 \<and> (\<forall>f \<in> set r. cc_field_ok f)"
    if kk: "k = 0 \<or> k = 1" and nz: "\<not> (c1 = 0 \<and> c2 = 0)"
  proof (rule Suc.IH [OF rest])
    show "length (acc[k := acc ! k @ [c1, c2]]) = 2"
      using Suc.prems(2) by simp
    from kk Suc.prems(2) have "k < length acc" by linarith
    with Suc.prems(3) show "\<forall>f \<in> set (acc[k := acc ! k @ [c1, c2]]). cc_field_ok f"
      using c nz by (rule cc_fields_update)
  qed
  show ?case
  proof (cases "c1 = 0 \<and> c2 = 0")
    case True
    then have "cea608_loop byteArray (Suc n) position acc =
        cea608_loop byteArray n (position + 3) acc"
      unfolding eq by (rule if_P)
    then show ?thesis
      using skip by (rule ssubst)
  next
    case nz: False
    show ?thesis
    proof (cases "v \<and> (k = 0 \<or> k = 1)")
      case True
      then have "k = 0 \<or> k = 1" by (rule conjunct2)
      then have p: "\<exists>r. cea608_loop byteArray n (position + 3) (acc[k := acc ! k @ [c1, c2]]) = Some r
           \<and> length r = 2 \<and> (\<forall>f \<in> set r. cc_field_ok f)"
        using nz by (rule push)
      have "cea608_loop byteArray (Suc n) position acc =
          cea608_loop byteArray n (position + 3) (acc[k := acc ! k @ [c1, c2]])"
        unfolding eq if_not_P [OF nz] using True by (rule if_P)
      then show ?thesis
        using p by (rule ssubst)
    next
      case False
      have "cea608_loop byteArray (Suc n) position acc =
          cea608_loop byteArray n (position + 3) acc"
        unfolding eq if_not_P [OF nz] using False by (rule if_not_P)
      then show ?thesis
        using skip by (rule ssubst)
    qed
  qed
qed

text \<open>
  C10. For every byte array of length at least \<open>2 + 3 * (byteArray[0] & 0x1F)\<close>,
  \<open>extractCea608Data\<close> makes no out-of-range read (the result is \<open>Some\<close>), returns
  exactly two fields, every returned byte lies in \<open>[0, 0x7F]\<close>, and no returned pair
  has both bytes equal to zero.
\<close>

theorem extractCea608Data_safe:
  assumes "2 + 3 * unat (byteArray ! 0 AND 0x1F) \<le> length byteArray"
  shows "\<exists>r. extractCea608Data byteArray = Some r \<and> length r = 2 \<and>
           (\<forall>f \<in> set r. even (length f) \<and> (\<forall>b \<in> set f. b \<le> 0x7F) \<and>
              (\<forall>i. 2 * i + 1 < length f \<longrightarrow> \<not> (f ! (2 * i) = 0 \<and> f ! (2 * i + 1) = 0)))"
proof -
  from assms have b0: "byteAt byteArray 0 = Some (byteArray ! 0)"
    by (cases byteArray) (simp_all add: byteAt_def)
  have "\<exists>r. cea608_loop byteArray (unat (byteArray ! 0 AND 31)) 2 [[], []] = Some r \<and>
          length r = 2 \<and> (\<forall>f \<in> set r. cc_field_ok f)"
    using assms by (intro cea608_loop_ok) (simp_all add: cc_field_ok_Nil)
  then show ?thesis
    by (simp add: extractCea608Data_def b0 cc_field_ok_def)
qed

theorem extractCea608Data_safe_witness:
  "2 + 3 * unat ([0xC2, 0xFF, 0xFC, 0x94, 0x20, 0xFD, 0xC8, 0x69 :: byte] ! 0 AND 0x1F)
     \<le> length [0xC2, 0xFF, 0xFC, 0x94, 0x20, 0xFD, 0xC8, 0x69 :: byte] \<and>
   extractCea608Data [0xC2, 0xFF, 0xFC, 0x94, 0x20, 0xFD, 0xC8, 0x69] = Some [[0x14, 0x20], [0x48, 0x69]]"
proof -
  have h: "2 + 3 * unat ([0xC2, 0xFF, 0xFC, 0x94, 0x20, 0xFD, 0xC8, 0x69 :: byte] ! 0 AND 0x1F)
     \<le> length [0xC2, 0xFF, 0xFC, 0x94, 0x20, 0xFD, 0xC8, 0x69 :: byte]"
    by simp
  have e: "extractCea608Data [0xC2, 0xFF, 0xFC, 0x94, 0x20, 0xFD, 0xC8, 0x69] = Some [[0x14, 0x20], [0x48, 0x69]]"
    by code_simp
  from extractCea608Data_safe [OF h] h e show ?thesis by simp
qed

subsection \<open>Retry with exponential backoff\<close>

lemma recoverLevel_fatal:
  assumes "lc_levels st = Some ls" and "0 \<le> levelIndex" and "nat levelIndex < length ls"
    and "\<not> int (levelRetryCount st) + 1 \<le> levelLoadingMaxRetry (config st)"
  shows "recoverLevel ev levelIndex True fe st =
     Inr (clearTimer ((update_level levelIndex
            (\<lambda>_. (ls ! nat levelIndex)\<lparr>loadError := loadError (ls ! nat levelIndex) + 1,
                                        fragmentError := fe\<rparr>) st)
            \<lparr>currentLevelIndex := None\<rparr>),
          ev\<lparr>fatal := True\<rparr>)"
  using assms by (simp add: recoverLevel_def at_index_def Let_def update_level_def)

lemma clearTimer_timer: "timer (clearTimer st) = None"
  by (simp add: clearTimer_def split: option.split)

lemma clearTimer_currentLevelIndex: "currentLevelIndex (clearTimer st) = currentLevelIndex st"
  by (simp add: clearTimer_def split: option.split)

lemma clearTimer_removes: "timer st = Some h \<Longrightarrow> h \<notin> fst ` set (timeouts (clearTimer st))"
  by (auto simp: clearTimer_def)

lemma recoverLevel_retry:
  assumes "lc_levels st = Some ls" and "0 \<le> levelIndex" and "nat levelIndex < length ls"
    and "int (levelRetryCount st) + 1 \<le> levelLoadingMaxRetry (config st)"
  shows "\<exists>st' ev'. recoverLevel ev levelIndex True fe st = Inr (st', ev') \<and>
       timer st' = Some (nextHandle st) \<and>
       timeouts st' = timeouts st @
         [(nextHandle st, LoadLevel,
           min (2 ^ levelRetryCount st * levelLoadingRetryDelay (config st))
               (levelLoadingMaxRetryTimeout (config st)))] \<and>
       levelRetry ev' = Some True \<and> levelRetryCount st' = levelRetryCount st + 1"
  using assms
  by (simp add: recoverLevel_def at_index_def Let_def update_level_def setTimer_def)

text \<open>
  C4. Let \<open>recoverLevel\<close> handle a level-scoped error on an existing level, with retry
  count \<open>k\<close>. If \<open>k + 1 \<le> levelLoadingMaxRetry\<close>, a level reload is armed after
  \<open>min (2 ^ k * levelLoadingRetryDelay) levelLoadingMaxRetryTimeout\<close> ms, the error event
  gets \<open>levelRetry = true\<close> and the retry count becomes \<open>k + 1\<close>. Otherwise the error
  event is made fatal, the current level index is cleared and the reload timer is cleared.
\<close>

theorem recoverLevel_backoff:
  assumes "lc_levels st = Some ls" and "0 \<le> levelIndex" and "nat levelIndex < length ls"
  shows "(int (levelRetryCount st) + 1 \<le> levelLoadingMaxRetry (config st) \<longrightarrow>
           (\<exists>st' ev'. recoverLevel ev levelIndex True fe st = Inr (st', ev') \<and>
              timer st' = Some (nextHandle st) \<and>
              timeouts st' = timeouts st @
                [(nextHandle st, LoadLevel,
                  min (2 ^ levelRetryCount st * levelLoadingRetryDelay (config st))
                      (levelLoadingMaxRetryTimeout (config st)))] \<and>
              levelRetry ev' = Some True \<and> levelRetryCount st' = levelRetryCount st + 1)) \<and>
         (\<not> int (levelRetryCount st) + 1 \<le> levelLoadingMaxRetry (config st) \<longrightarrow>
           (\<exists>st' ev'. recoverLevel ev levelIndex True fe st = Inr (st', ev') \<and>
              fatal ev' \<and> currentLevelIndex st' = None \<and> timer st' = None \<and>
              (\<forall>h. timer st = Some h \<longrightarrow> h \<notin> fst ` set (timeouts st'))))"
proof (intro conjI impI)
  assume "int (levelRetryCount st) + 1 \<le> levelLoadingMaxRetry (config st)"
  with assms show "\<exists>st' ev'. recoverLevel ev levelIndex True fe st = Inr (st', ev') \<and>
              timer st' = Some (nextHandle st) \<and>
              timeouts st' = timeouts st @
                [(nextHandle st, LoadLevel,
                  min (2 ^ levelRetryCount st * levelLoadingRetryDelay (config st))
                      (levelLoadingMaxRetryTimeout (config st)))] \<and>
              levelRetry ev' = Some True \<and> levelRetryCount st' = levelRetryCount st + 1"
    by (rule recoverLevel_retry)
next
  assume no: "\<not> int (levelRetryCount st) + 1 \<le> levelLoadingMaxRetry (config st)"
  let ?st1 = "(update_level levelIndex
            (\<lambda>_. (ls ! nat levelIndex)\<lparr>loadError := loadError (ls ! nat levelIndex) + 1,
                                        fragmentError := fe\<rparr>) st)
            \<lparr>currentLevelIndex := None\<rparr>"
  have r: "recoverLevel ev levelIndex True fe st = Inr (clearTimer ?st1, ev\<lparr>fatal := True\<rparr>)"
    using assms no by (rule recoverLevel_fatal)
  have t: "timer ?st1 = timer st" by (simp add: update_level_def)
  have "\<forall>h. timer st = Some h \<longrightarrow> h \<notin> fst ` set (timeouts (clearTimer ?st1))"
    using clearTimer_removes [of ?st1] unfolding t by blast
  then show "\<exists>st' ev'. recoverLevel ev levelIndex True fe st = Inr (st', ev') \<and>
              fatal ev' \<and> currentLevelIndex st' = None \<and> timer st' = None \<and>
              (\<forall>h. timer st = Some h \<longrightarrow> h \<notin> fst ` set (timeouts st'))"
    unfolding r by (simp add: clearTimer_timer clearTimer_currentLevelIndex)
qed

text \<open>
  With \<open>levelLoadingMaxRetry = 3\<close>, \<open>levelLoadingRetryDelay = 1000\<close> and
  \<open>levelLoadingMaxRetryTimeout = 8000\<close>, consecutive level load timeouts arm reloads after
  1000, 2000 and 4000 ms, and the fourth is made fatal.
\<close>

theorem recoverLevel_backoff_witness:
  "lc_levels s3_start = Some [s3_level] \<and> (0::int) \<le> 0 \<and> nat 0 < length [s3_level] \<and>
   int (levelRetryCount s3_start) + 1 \<le> levelLoadingMaxRetry (config s3_start) \<and>
   (case recoverLevel s3_error 0 True False s3_start of
      Inl _ \<Rightarrow> False
    | Inr (st', ev') \<Rightarrow> timeouts st' = [(1, LoadLevel, 1000)] \<and> timer st' = Some 1 \<and>
        levelRetry ev' = Some True \<and> levelRetryCount st' = 1) \<and>
   \<not> int (levelRetryCount (s3_start\<lparr>levelRetryCount := 3\<rparr>)) + 1
       \<le> levelLoadingMaxRetry (config (s3_start\<lparr>levelRetryCount := 3\<rparr>)) \<and>
   (case recoverLevel s3_error 0 True False (s3_start\<lparr>levelRetryCount := 3\<rparr>) of
      Inl _ \<Rightarrow> False
    | Inr (st', ev') \<Rightarrow> fatal ev' \<and> currentLevelIndex st' = None \<and> timer st' = None) \<and>
   s3_run = Inr (([(LoadLevel, 1000)], Some True), ([(LoadLevel, 2000)], Some True),
                 ([(LoadLevel, 4000)], Some True), (True, None, None, []))"
proof -
  have l: "lc_levels s3_start = Some [s3_level]"
    and l': "lc_levels (s3_start\<lparr>levelRetryCount := 3\<rparr>) = Some [s3_level]"
    by (simp_all add: s3_start_def)
  have i: "(0::int) \<le> 0" "nat 0 < length [s3_level]" by simp_all
  have k: "int (levelRetryCount s3_start) + 1 \<le> levelLoadingMaxRetry (config s3_start)"
    by (simp add: s3_start_def newLevelController_def s3_config_def)
  have k': "\<not> int (levelRetryCount (s3_start\<lparr>levelRetryCount := 3\<rparr>)) + 1
       \<le> levelLoadingMaxRetry (config (s3_start\<lparr>levelRetryCount := 3\<rparr>))"
    by (simp add: s3_start_def newLevelController_def s3_config_def)
  have v: "nextHandle s3_start = 1" "timeouts s3_start = []" "levelRetryCount s3_start = 0"
    "levelLoadingRetryDelay (config s3_start) = 1000"
    "levelLoadingMaxRetryTimeout (config s3_start) = 8000"
    by (simp_all add: s3_start_def newLevelController_def s3_config_def)
  from recoverLevel_backoff [OF l i, of s3_error False] k
  obtain st' ev' where "recoverLevel s3_error 0 True False s3_start = Inr (st', ev')"
    and "timer st' = Some (nextHandle s3_start)"
    and "timeouts st' = timeouts s3_start @
                [(nextHandle s3_start, LoadLevel,
                  min (2 ^ levelRetryCount s3_start * levelLoadingRetryDelay (config s3_start))
                      (levelLoadingMaxRetryTimeout (config s3_start)))]"
    and "levelRetry ev' = Some True" "levelRetryCount st' = levelRetryCount s3_start + 1"
    by blast
  then have first: "(case recoverLevel s3_error 0 True False s3_start of
      Inl _ \<Rightarrow> False
    | Inr (st', ev') \<Rightarrow> timeouts st' = [(1, LoadLevel, 1000)] \<and> timer st' = Some 1 \<and>
        levelRetry ev' = Some True \<and> levelRetryCount st' = 1)"
    by (simp add: v)
  from recoverLevel_backoff [OF l' i, of s3_error False] k'
  obtain st'' ev'' where "recoverLevel s3_error 0 True False (s3_start\<lparr>levelRetryCount := 3\<rparr>) = Inr (st'', ev'')"
    and "fatal ev''" "currentLevelIndex st'' = None" "timer st'' = None"
    by blast
  then have fourth: "(case recoverLevel s3_error 0 True False (s3_start\<lparr>levelRetryCount := 3\<rparr>) of
      Inl _ \<Rightarrow> False
    | Inr (st', ev') \<Rightarrow> fatal ev' \<and> currentLevelIndex st' = None \<and> timer st' = None)"
    by simp
  have run: "s3_run = Inr (([(LoadLevel, 1000)], Some True), ([(LoadLevel, 2000)], Some True),
                 ([(LoadLevel, 4000)], Some True), (True, None, None, []))"
    by code_simp
  from l i k first k' fourth run show ?thesis
    by (intro conjI)
qed

subsection \<open>Low-latency reload\<close>

text \<open>The details as \<open>onLevelLoaded\<close> hands them to the low-latency timer.\<close>

lemma onLevelLoaded_lowLatency:
  assumes "currentLevelIndex st = Some lvl" and "lc_levels st = Some ls"
    and "at_index ls lvl = Some curLevel"
    and "live d" and "serverControl d = Some sc" and "canBlock sc"
    and "partTarget d = Some p" and "p \<noteq> 0"
    and "d' = d\<lparr>availabilityDelay := (case details curLevel of None \<Rightarrow> None | Some c \<Rightarrow> availabilityDelay c),
               updated := Some (case details curLevel of None \<Rightarrow> True | Some c \<Rightarrow> endSN d \<noteq> endSN c)\<rparr>"
  shows "\<exists>st'. onLevelLoaded cri \<lparr>lld_level = lvl, lld_details = d, lld_id = ident, lld_stats = stats\<rparr> st = Inr st' \<and>
           timer st' = Some (nextHandle st) \<and>
           timeouts st' = timeouts st @
             [(nextHandle st, LoadLowLatencyLevel d' lvl ident, max (cri d' stats - 100) 100)]"
  using assms
  by (simp add: onLevelLoaded_def Let_def setTimer_def update_level_def cong: option.case_cong)

lemma loadLowLatencyLevel_request:
  assumes "canLoad st" and "serverControl d = Some sc"
    and "n = (if currentSn st = - 1 then endSN d else currentSn st) + (if updated d = Some True then 1 else 0)"
  shows "loadLowLatencyLevel d lvl ident st =
     Inr (st\<lparr>currentSn := n, currentPart := (if currentPart st = - 1 then 0 else currentPart st),
             emitted := emitted st @
               [LEVEL_LOADING (Some (takeWhile (\<lambda>c. c \<noteq> CHR ''?'') (d_url d) @ ''?_HLS_msn='' @ showInt n))
                  lvl ident]\<rparr>)"
  using assms
  by (simp add: loadLowLatencyLevel_def Let_def trigger_def)

text \<open>
  C6. When a live LEVEL_LOADED for the current level carries a server control with
  \<open>canBlock\<close> and a part target, a low-latency reload is armed after
  \<open>max (reloadInterval - 100) 100\<close> ms; and whenever that reload runs with loading
  allowed, it requests the URL of the details, cut before its first \<open>?\<close>, followed by
  \<open>?_HLS_msn=N\<close>, where \<open>N\<close> is the sequence number kept by the controller (\<open>endSN\<close> of
  the details on the first low-latency reload), advanced by one if and only if the
  details are marked \<open>updated\<close>; the controller keeps \<open>N\<close> for the next reload.
\<close>

theorem lowLatency_reload:
  assumes "currentLevelIndex st = Some lvl" and "lc_levels st = Some ls"
    and "at_index ls lvl = Some curLevel"
    and "live d" and "serverControl d = Some sc" and "canBlock sc"
    and "partTarget d = Some p" and "p \<noteq> 0"
    and "d' = d\<lparr>availabilityDelay := (case details curLevel of None \<Rightarrow> None | Some c \<Rightarrow> availabilityDelay c),
               updated := Some (case details curLevel of None \<Rightarrow> True | Some c \<Rightarrow> endSN d \<noteq> endSN c)\<rparr>"
  shows "(\<exists>st'. onLevelLoaded cri \<lparr>lld_level = lvl, lld_details = d, lld_id = ident, lld_stats = stats\<rparr> st = Inr st' \<and>
           timer st' = Some (nextHandle st) \<and>
           timeouts st' = timeouts st @
             [(nextHandle st, LoadLowLatencyLevel d' lvl ident, max (cri d' stats - 100) 100)]) \<and>
         (\<forall>st2 n. canLoad st2 \<and>
             n = (if currentSn st2 = - 1 then endSN d else currentSn st2) +
                 (if updated d' = Some True then 1 else 0) \<longrightarrow>
             loadLowLatencyLevel d' lvl ident st2 =
               Inr (st2\<lparr>currentSn := n,
                       currentPart := (if currentPart st2 = - 1 then 0 else currentPart st2),
                       emitted := emitted st2 @
                         [LEVEL_LOADING
                            (Some (takeWhile (\<lambda>c. c \<noteq> CHR ''?'') (d_url d) @ ''?_HLS_msn='' @ showInt n))
                            lvl ident]\<rparr>))"
proof
  show "\<exists>st'. onLevelLoaded cri \<lparr>lld_level = lvl, lld_details = d, lld_id = ident, lld_stats = stats\<rparr> st = Inr st' \<and>
           timer st' = Some (nextHandle st) \<and>
           timeouts st' = timeouts st @
             [(nextHandle st, LoadLowLatencyLevel d' lvl ident, max (cri d' stats - 100) 100)]"
    using assms by (rule onLevelLoaded_lowLatency)
next
  have same: "serverControl d' = Some sc" "endSN d' = endSN d" "d_url d' = d_url d"
    using assms(5,9) by simp_all
  show "\<forall>st2 n. canLoad st2 \<and>
             n = (if currentSn st2 = - 1 then endSN d else currentSn st2) +
                 (if updated d' = Some True then 1 else 0) \<longrightarrow>
             loadLowLatencyLevel d' lvl ident st2 =
               Inr (st2\<lparr>currentSn := n,
                       currentPart := (if currentPart st2 = - 1 then 0 else currentPart st2),
                       emitted := emitted st2 @
                         [LEVEL_LOADING
                            (Some (takeWhile (\<lambda>c. c \<noteq> CHR ''?'') (d_url d) @ ''?_HLS_msn='' @ showInt n))
                            lvl ident]\<rparr>)"
  proof (intro allI impI)
    fix st2 :: levelController and n :: int
    assume h: "canLoad st2 \<and>
             n = (if currentSn st2 = - 1 then endSN d else currentSn st2) +
                 (if updated d' = Some True then 1 else 0)"
    then have c: "canLoad st2"
      and n: "n = (if currentSn st2 = - 1 then endSN d' else currentSn st2) +
                 (if updated d' = Some True then 1 else 0)"
      unfolding same by simp_all
    show "loadLowLatencyLevel d' lvl ident st2 =
               Inr (st2\<lparr>currentSn := n,
                       currentPart := (if currentPart st2 = - 1 then 0 else currentPart st2),
                       emitted := emitted st2 @
                         [LEVEL_LOADING
                            (Some (takeWhile (\<lambda>c. c \<noteq> CHR ''?'') (d_url d) @ ''?_HLS_msn='' @ showInt n))
                            lvl ident]\<rparr>)"
      using loadLowLatencyLevel_request [OF c same(1) n, of lvl ident] unfolding same .
  qed
qed

text \<open>
  A playlist at \<open>http://example.com/live.m3u8?token=abc\<close> ending at sequence number 42,
  loaded for the first time (so \<open>updated\<close>), with a reload interval of 1000 ms: the
  reload is armed after 900 ms and asks for \<open>?_HLS_msn=43\<close>.
\<close>

theorem lowLatency_reload_witness:
  "currentLevelIndex s3_start = Some 0 \<and> lc_levels s3_start = Some [s3_level] \<and>
   at_index [s3_level] 0 = Some s3_level \<and> live s7_details \<and>
   serverControl s7_details = Some \<lparr>canBlock = True, canSkipUntil = 0, holdBack = 0, partHoldBack = 3\<rparr> \<and>
   partTarget s7_details = Some 1 \<and>
   (case onLevelLoaded (\<lambda>_ _. 1000) s7_loaded s3_start of
      Inl _ \<Rightarrow> False
    | Inr st' \<Rightarrow> timer st' = Some 1 \<and> map (\<lambda>(h, _, delay). (h, delay)) (timeouts st') = [(1, 900)]) \<and>
   loadLowLatencyLevel (s7_details\<lparr>availabilityDelay := None, updated := Some True\<rparr>) 0 0 s3_start =
     Inr (s3_start\<lparr>currentSn := 43, currentPart := 0,
            emitted := [LEVEL_LOADING (Some ''http://example.com/live.m3u8?_HLS_msn=43'') 0 0]\<rparr>) \<and>
   s7_run (\<lambda>_ _. 1000) =
     Inr ([(1, 900)], [LEVEL_LOADING (Some ''http://example.com/live.m3u8?_HLS_msn=43'') 0 0])"
proof -
  have fields: "live s7_details" "endSN s7_details = 42"
    "serverControl s7_details = Some \<lparr>canBlock = True, canSkipUntil = 0, holdBack = 0, partHoldBack = 3\<rparr>"
    "partTarget s7_details = Some 1"
    "d_url s7_details = ''http://example.com/live.m3u8?token=abc''"
    by (simp_all add: s7_details_def newLevelDetails_def levelDetails_fields_def Let_def
        split: option.split)
  have start: "currentLevelIndex s3_start = Some 0" "lc_levels s3_start = Some [s3_level]"
    "canLoad s3_start" "currentSn s3_start = - 1" "currentPart s3_start = - 1"
    "nextHandle s3_start = 1" "timeouts s3_start = []" "emitted s3_start = []"
    by (simp_all add: s3_start_def newLevelController_def)
  have lv: "at_index [s3_level] 0 = Some s3_level" "details s3_level = None"
    by (simp_all add: at_index_def s3_level_def newLevel_def)
  have cb: "canBlock \<lparr>canBlock = True, canSkipUntil = 0, holdBack = 0, partHoldBack = 3\<rparr>"
    and p: "(1::real) \<noteq> 0"
    by simp_all
  have d': "s7_details\<lparr>availabilityDelay := None, updated := Some True\<rparr> =
      s7_details\<lparr>availabilityDelay := (case details s3_level of None \<Rightarrow> None | Some c \<Rightarrow> availabilityDelay c),
                 updated := Some (case details s3_level of None \<Rightarrow> True | Some c \<Rightarrow> endSN s7_details \<noteq> endSN c)\<rparr>"
    by (simp add: lv)
  note inst = lowLatency_reload [OF start(1,2) lv(1) fields(1) fields(3) cb fields(4) p d',
      of "\<lambda>_ _. 1000" 0 "lld_stats s7_loaded"]
  have loaded: "\<lparr>lld_level = 0, lld_details = s7_details, lld_id = 0, lld_stats = lld_stats s7_loaded\<rparr> = s7_loaded"
    by (simp add: s7_loaded_def)
  from inst obtain st' where "onLevelLoaded (\<lambda>_ _. 1000) s7_loaded s3_start = Inr st'"
    and "timer st' = Some (nextHandle s3_start)"
    and "timeouts st' = timeouts s3_start @
       [(nextHandle s3_start,
         LoadLowLatencyLevel (s7_details\<lparr>availabilityDelay := None, updated := Some True\<rparr>) 0 0,
         max (1000 - 100) 100)]"
    unfolding loaded by blast
  then have arm: "(case onLevelLoaded (\<lambda>_ _. 1000) s7_loaded s3_start of
      Inl _ \<Rightarrow> False
    | Inr st' \<Rightarrow> timer st' = Some 1 \<and> map (\<lambda>(h, _, delay). (h, delay)) (timeouts st') = [(1, 900)])"
    by (simp add: start)
  have n: "canLoad s3_start \<and>
      43 = (if currentSn s3_start = - 1 then endSN s7_details else currentSn s3_start) +
           (if updated (s7_details\<lparr>availabilityDelay := None, updated := Some True\<rparr>) = Some True then 1 else 0)"
    by (simp add: start fields)
  have s: "showInt 43 = ''43''"
    by code_simp
  from inst have "\<forall>st2 n. canLoad st2 \<and>
             n = (if currentSn st2 = - 1 then endSN s7_details else currentSn st2) +
                 (if updated (s7_details\<lparr>availabilityDelay := None, updated := Some True\<rparr>) = Some True then 1 else 0) \<longrightarrow>
             loadLowLatencyLevel (s7_details\<lparr>availabilityDelay := None, updated := Some True\<rparr>) 0 0 st2 =
               Inr (st2\<lparr>currentSn := n,
                       currentPart := (if currentPart st2 = - 1 then 0 else currentPart st2),
                       emitted := emitted st2 @
                         [LEVEL_LOADING
                            (Some (takeWhile (\<lambda>c. c \<noteq> CHR ''?'') (d_url s7_details) @ ''?_HLS_msn='' @ showInt n))
                            0 0]\<rparr>)"
    by (rule conjunct2)
  then have "canLoad s3_start \<and>
      43 = (if currentSn s3_start = - 1 then endSN s7_details else currentSn s3_start) +
           (if updated (s7_details\<lparr>availabilityDelay := None, updated := Some True\<rparr>) = Some True then 1 else 0) \<longrightarrow>
      loadLowLatencyLevel (s7_details\<lparr>availabilityDelay := None, updated := Some True\<rparr>) 0 0 s3_start =
               Inr (s3_start\<lparr>currentSn := 43,
                       currentPart := (if currentPart s3_start = - 1 then 0 else currentPart s3_start),
                       emitted := emitted s3_start @
                         [LEVEL_LOADING
                            (Some (takeWhile (\<lambda>c. c \<noteq> CHR ''?'') (d_url s7_details) @ ''?_HLS_msn='' @ showInt 43))
                            0 0]\<rparr>)"
    by blast
  with n have req: "loadLowLatencyLevel (s7_details\<lparr>availabilityDelay := None, updated := Some True\<rparr>) 0 0 s3_start =
     Inr (s3_start\<lparr>currentSn := 43, currentPart := 0,
            emitted := [LEVEL_LOADING (Some ''http://example.com/live.m3u8?_HLS_msn=43'') 0 0]\<rparr>)"
    by (simp add: start fields s)
  have run: "s7_run (\<lambda>_ _. 1000) =
     Inr ([(1, 900)], [LEVEL_LOADING (Some ''http://example.com/live.m3u8?_HLS_msn=43'') 0 0])"
    by code_simp
  from start(1,2) lv(1) fields(1,3,4) arm req run show ?thesis
    by (intro conjI)
qed

subsection \<open>Manifest admission: sorted levels and the first level\<close>

lemma levelSet_lookup_None: "levelSet_lookup ls b = None \<longleftrightarrow> b \<notin> bitrate ` set ls"
  by (induction ls) auto

lemma levelSet_lookup_Some:
  "levelSet_lookup ls b = Some i \<Longrightarrow> i < length ls \<and> bitrate (ls ! i) = b"
proof (induction ls arbitrary: i)
  case Nil
  then show ?case by simp
next
  case (Cons lv ls)
  show ?case
  proof (cases "bitrate lv = b")
    case True
    with Cons.prems show ?thesis by simp
  next
    case False
    with Cons.prems obtain j where j: "levelSet_lookup ls b = Some j" and i: "i = Suc j"
      by auto
    from Cons.IH [OF j] i show ?thesis by simp
  qed
qed

lemma map_bitrate_update:
  assumes "bitrate y = bitrate (xs ! k)"
  shows "map bitrate (xs[k := y]) = map bitrate xs"
proof (cases "k < length xs")
  case True
  have "map bitrate (xs[k := y]) = (map bitrate xs)[k := bitrate y]"
    by (rule map_update)
  also have "\<dots> = (map bitrate xs)[k := map bitrate xs ! k]"
    using True assms by simp
  also have "\<dots> = map bitrate xs"
    by (rule list_update_id)
  finally show ?thesis .
next
  case False
  then have "length xs \<le> k" by (rule leI)
  then have "xs[k := y] = xs" by (rule list_update_beyond)
  then show ?thesis by (rule arg_cong)
qed

lemma bitrate_addGroupId: "bitrate (addGroupId lv kind gid) = bitrate lv"
  by (cases kind) (simp_all add: addGroupId_def)

lemma regroup_bitrates:
  "map bitrate (fst (regroup ua (ls, v, a) lp)) =
     (if lp_bitrate lp \<in> bitrate ` set ls then map bitrate ls else map bitrate ls @ [lp_bitrate lp])"
proof -
  define lp' where "lp' = (if ua \<and> truthy (lp_audioCodec lp) \<and> contains ''mp4a.40.34'' (the (lp_audioCodec lp))
               then lp\<lparr>lp_audioCodec := None\<rparr> else lp)"
  have b: "lp_bitrate lp' = lp_bitrate lp" by (simp add: lp'_def)
  define ls1 where "ls1 = (case levelSet_lookup ls (lp_bitrate lp') of
                 None \<Rightarrow> ls @ [newLevel lp']
               | Some i \<Rightarrow> ls[i := (ls ! i)\<lparr>url := url (ls ! i) @ [lp_url lp']\<rparr>])"
  define k where "k = (case levelSet_lookup ls (lp_bitrate lp') of None \<Rightarrow> length ls | Some i \<Rightarrow> i)"
  define audioAttr where "audioAttr = (case lp_attrs lp of None \<Rightarrow> None | Some a \<Rightarrow> attr_AUDIO a)"
  define textAttr where "textAttr = (case lp_attrs lp of None \<Rightarrow> None | Some a \<Rightarrow> attr_SUBTITLES a)"
  define ls2 where "ls2 = (if truthy audioAttr then ls1[k := addGroupId (ls1 ! k) AudioGroup (the audioAttr)] else ls1)"
  define ls3 where "ls3 = (if truthy textAttr then ls2[k := addGroupId (ls2 ! k) TextGroup (the textAttr)] else ls2)"
  have r: "fst (regroup ua (ls, v, a) lp) = ls3"
    unfolding regroup_def ls3_def ls2_def ls1_def k_def audioAttr_def textAttr_def lp'_def
    by (simp add: Let_def split: option.split)
  have 1: "map bitrate ls1 =
     (if lp_bitrate lp \<in> bitrate ` set ls then map bitrate ls else map bitrate ls @ [lp_bitrate lp])"
  proof (cases "levelSet_lookup ls (lp_bitrate lp')")
    case None
    then have "lp_bitrate lp \<notin> bitrate ` set ls"
      unfolding b levelSet_lookup_None .
    with None show ?thesis
      by (simp add: ls1_def newLevel_def b)
  next
    case (Some i)
    from levelSet_lookup_Some [OF Some] have "lp_bitrate lp \<in> bitrate ` set ls"
      unfolding b by (metis imageI nth_mem)
    moreover have "map bitrate (ls[i := (ls ! i)\<lparr>url := url (ls ! i) @ [lp_url lp']\<rparr>]) = map bitrate ls"
      by (rule map_bitrate_update) simp
    ultimately show ?thesis
      using Some by (simp add: ls1_def)
  qed
  have 2: "map bitrate ls2 = map bitrate ls1"
    unfolding ls2_def by (simp add: map_bitrate_update bitrate_addGroupId)
  have 3: "map bitrate ls3 = map bitrate ls2"
    unfolding ls3_def by (simp add: map_bitrate_update bitrate_addGroupId)
  show ?thesis
    unfolding r 3 2 1 ..
qed

lemma foldl_regroup_distinct:
  "distinct (map bitrate (fst acc)) \<Longrightarrow> distinct (map bitrate (fst (foldl (regroup ua) acc ps)))"
proof (induction ps arbitrary: acc)
  case Nil
  then show ?case by simp
next
  case (Cons p ps)
  obtain ls v a where acc: "acc = (ls, v, a)" by (cases acc)
  from Cons.prems have "distinct (map bitrate (fst (regroup ua acc p)))"
    unfolding acc regroup_bitrates by auto
  then have "distinct (map bitrate (fst (foldl (regroup ua) (regroup ua acc p) ps)))"
    by (rule Cons.IH)
  then show ?case by simp
qed

lemma foldl_regroup_prefix:
  "\<exists>ext. map bitrate (fst (foldl (regroup ua) acc ps)) = map bitrate (fst acc) @ ext"
proof (induction ps arbitrary: acc)
  case Nil
  show ?case by simp
next
  case (Cons p ps)
  obtain ls v a where acc: "acc = (ls, v, a)" by (cases acc)
  obtain e1 where e1: "map bitrate (fst (regroup ua acc p)) = map bitrate (fst acc) @ e1"
    unfolding acc regroup_bitrates by (cases "lp_bitrate p \<in> bitrate ` set ls") auto
  from Cons.IH [of "regroup ua acc p"] obtain e2 where
    "map bitrate (fst (foldl (regroup ua) (regroup ua acc p) ps)) =
       map bitrate (fst (regroup ua acc p)) @ e2"
    by blast
  with e1 have "map bitrate (fst (foldl (regroup ua) acc (p # ps))) = map bitrate (fst acc) @ (e1 @ e2)"
    by simp
  then show ?case by blast
qed

text \<open>The first grouped level has the bitrate of the first entry of the manifest.\<close>

lemma foldl_regroup_head:
  assumes "parsed \<noteq> []"
  shows "\<exists>rest. map bitrate (fst (foldl (regroup ua) ([], False, False) parsed)) =
           lp_bitrate (hd parsed) # rest"
proof -
  from assms obtain p ps where parsed: "parsed = p # ps" by (cases parsed) auto
  have one: "map bitrate (fst (regroup ua ([], False, False) p)) = [lp_bitrate p]"
    unfolding regroup_bitrates by simp
  from foldl_regroup_prefix [of ua "regroup ua ([], False, False) p" ps] obtain ext where
    "map bitrate (fst (foldl (regroup ua) (regroup ua ([], False, False) p) ps)) =
       map bitrate (fst (regroup ua ([], False, False) p)) @ ext"
    by blast
  then show ?thesis
    unfolding one parsed by simp
qed

text \<open>The surviving levels are a selection, in manifest order, of the grouped levels.\<close>

lemma admitted_filter:
  assumes "admitted supp ua parsed = (levels, v, a)"
  shows "\<exists>Q. levels = filter Q (fst (foldl (regroup ua) ([], False, False) parsed))"
proof -
  obtain ls0 v0 a0 where f: "foldl (regroup ua) ([], False, False) parsed = (ls0, v0, a0)"
    by (cases "foldl (regroup ua) ([], False, False) parsed")
  define P1 where "P1 = (\<lambda>lv :: hlsLevel. truthy (videoCodec lv))"
  define P2 where "P2 = (\<lambda>lv :: hlsLevel.
                  (\<not> truthy (audioCodec lv) \<or> supp (the (audioCodec lv)) AudioCodec) \<and>
                  (\<not> truthy (videoCodec lv) \<or> supp (the (videoCodec lv)) VideoCodec))"
  define X where "X = filter P2 (if v0 \<and> a0 then filter P1 ls0 else ls0)"
  have "admitted supp ua parsed = (X, v0, a0)"
    unfolding admitted_def f P1_def P2_def X_def by (simp add: Let_def)
  from this assms have "(X, v0, a0) = (levels, v, a)"
    by (rule trans [OF sym])
  then have "X = levels"
    by (rule Pair_inject)
  then have L: "levels = filter P2 (if v0 \<and> a0 then filter P1 ls0 else ls0)"
    unfolding X_def by (rule sym)
  have ls0: "fst (foldl (regroup ua) ([], False, False) parsed) = ls0"
    unfolding f by simp
  show ?thesis
  proof (cases "v0 \<and> a0")
    case True
    with L have "levels = filter P2 (filter P1 ls0)" by simp
    then have "levels = filter (\<lambda>x. P1 x \<and> P2 x) ls0"
      by (simp only: filter_filter)
    then show ?thesis
      unfolding ls0 by (rule exI [where x = "\<lambda>x. P1 x \<and> P2 x"])
  next
    case False
    with L have "levels = filter P2 ls0" by simp
    then show ?thesis
      unfolding ls0 by (rule exI [where x = P2])
  qed
qed

lemma admitted_distinct:
  assumes "admitted supp ua parsed = (levels, v, a)"
  shows "distinct (map bitrate levels)"
proof -
  from admitted_filter [OF assms] obtain Q where
    Q: "levels = filter Q (fst (foldl (regroup ua) ([], False, False) parsed))" by blast
  have "distinct (map bitrate (fst (foldl (regroup ua) ([], False, False) parsed)))"
    by (rule foldl_regroup_distinct) simp
  then show ?thesis
    unfolding Q by (rule distinct_map_filter)
qed

lemma admitted_head:
  assumes "admitted supp ua parsed = (levels, v, a)"
    and "lv \<in> set levels" and "bitrate lv = lp_bitrate (hd parsed)"
  shows "bitrate (hd levels) = lp_bitrate (hd parsed)"
proof -
  let ?ls0 = "fst (foldl (regroup ua) ([], False, False) parsed)"
  from admitted_filter [OF assms(1)] obtain Q where Q: "levels = filter Q ?ls0" by blast
  from assms(2) Q have lv0: "lv \<in> set ?ls0" and Qlv: "Q lv" by auto
  then have "?ls0 \<noteq> []" by auto
  then have "parsed \<noteq> []" by auto
  from foldl_regroup_head [OF this, of ua] obtain rest where
    m: "map bitrate ?ls0 = lp_bitrate (hd parsed) # rest" by (erule exE)
  then obtain x xs where ls0: "?ls0 = x # xs" and x: "bitrate x = lp_bitrate (hd parsed)"
    by (cases ?ls0) auto
  have d: "distinct (map bitrate ?ls0)"
    by (rule foldl_regroup_distinct) simp
  have "lv = x"
  proof (rule ccontr)
    assume "lv \<noteq> x"
    with lv0 ls0 have "lv \<in> set xs" by auto
    then have "bitrate lv \<in> set (map bitrate xs)" by simp
    with d ls0 x assms(3) show False by simp
  qed
  with Qlv Q ls0 have "hd levels = x" by simp
  with x show ?thesis by simp
qed

lemma sort_key_strict:
  assumes "distinct (map bitrate ls)"
  shows "sorted_wrt (<) (map bitrate (sort_key bitrate ls))"
proof -
  have "sorted (map bitrate (sort_key bitrate ls))"
    by (rule sorted_sort_key)
  moreover from assms have "distinct (map bitrate (sort_key bitrate ls))"
    by (simp add: distinct_map)
  ultimately show ?thesis
    by (simp only: strict_sorted_iff)
qed

lemma findFirstLevel_index:
  assumes "b \<in> bitrate ` set ls"
  shows "\<exists>i. findFirstLevel ls b old = int i \<and> i < length ls \<and> bitrate (ls ! i) = b"
proof (cases "levelSet_lookup ls b")
  case None
  with assms show ?thesis
    by (simp add: levelSet_lookup_None)
next
  case (Some i)
  from levelSet_lookup_Some [OF Some] Some show ?thesis
    by (simp add: findFirstLevel_def)
qed

lemma onManifestLoaded_admitted:
  assumes "admitted supp (chromeOrFirefox st) (mld_levels data) = (levels, v, a)"
    and "levels \<noteq> []"
  shows "\<exists>tracks. onManifestLoaded supp data st =
            trigger (MANIFEST_PARSED
                \<lparr> mpd_levels = sort_key bitrate levels, mpd_audioTracks = tracks,
                  mpd_firstLevel = findFirstLevel (sort_key bitrate levels) (bitrate (hd levels))
                                     (lc_firstLevel st),
                  mpd_stats = mld_stats data, mpd_audio = a, mpd_video = v,
                  mpd_altAudio = list_ex (\<lambda>t. truthy (mp_url t)) tracks \<rparr>)
              (st\<lparr>lc_levels := Some (sort_key bitrate levels),
                  lc_firstLevel := findFirstLevel (sort_key bitrate levels) (bitrate (hd levels))
                                     (lc_firstLevel st)\<rparr>)"
proof -
  define tracks where "tracks =
     (case mld_audioTracks data of
        None \<Rightarrow> []
      | Some ts \<Rightarrow>
          map (\<lambda>(index, track). track\<lparr>mp_id := int index\<rparr>)
            (enumerate 0
               (filter (\<lambda>track. \<not> truthy (mp_audioCodec track) \<or>
                          supp (the (mp_audioCodec track)) AudioCodec) ts)))"
  have "onManifestLoaded supp data st =
            trigger (MANIFEST_PARSED
                \<lparr> mpd_levels = sort_key bitrate levels, mpd_audioTracks = tracks,
                  mpd_firstLevel = findFirstLevel (sort_key bitrate levels) (bitrate (hd levels))
                                     (lc_firstLevel st),
                  mpd_stats = mld_stats data, mpd_audio = a, mpd_video = v,
                  mpd_altAudio = list_ex (\<lambda>t. truthy (mp_url t)) tracks \<rparr>)
              (st\<lparr>lc_levels := Some (sort_key bitrate levels),
                  lc_firstLevel := findFirstLevel (sort_key bitrate levels) (bitrate (hd levels))
                                     (lc_firstLevel st)\<rparr>)"
    using assms unfolding tracks_def by (simp add: onManifestLoaded_def Let_def hd_conv_nth)
  then show ?thesis by (rule exI)
qed

text \<open>
  C2, as the code has it. When at least one level survives the codec filters, the
  levels emitted with MANIFEST_PARSED are the surviving levels, strictly sorted by
  ascending bitrate, and \<open>firstLevel\<close> is the index, in that sorted array, of the level
  whose bitrate is that of the first surviving level in manifest order. That bitrate is
  the bitrate of the first entry of the manifest whenever a level of that bitrate
  survives the filters.
\<close>

theorem onManifestLoaded_sorted_firstLevel:
  assumes "admitted supp (chromeOrFirefox st) (mld_levels data) = (levels, v, a)"
    and "levels \<noteq> []"
  shows "\<exists>m. emitted (onManifestLoaded supp data st) = emitted st @ [MANIFEST_PARSED m] \<and>
           lc_levels (onManifestLoaded supp data st) = Some (mpd_levels m) \<and>
           lc_firstLevel (onManifestLoaded supp data st) = mpd_firstLevel m \<and>
           mpd_levels m = sort_key bitrate levels \<and>
           sorted_wrt (<) (map bitrate (mpd_levels m)) \<and>
           0 \<le> mpd_firstLevel m \<and> nat (mpd_firstLevel m) < length (mpd_levels m) \<and>
           bitrate (mpd_levels m ! nat (mpd_firstLevel m)) = bitrate (hd levels) \<and>
           ((\<exists>lv \<in> set levels. bitrate lv = lp_bitrate (hd (mld_levels data))) \<longrightarrow>
              bitrate (mpd_levels m ! nat (mpd_firstLevel m)) = lp_bitrate (hd (mld_levels data)))"
proof -
  let ?S = "sort_key bitrate levels"
  let ?F = "findFirstLevel ?S (bitrate (hd levels)) (lc_firstLevel st)"
  from onManifestLoaded_admitted [OF assms] obtain tracks where
    r: "onManifestLoaded supp data st =
            trigger (MANIFEST_PARSED
                \<lparr> mpd_levels = ?S, mpd_audioTracks = tracks, mpd_firstLevel = ?F,
                  mpd_stats = mld_stats data, mpd_audio = a, mpd_video = v,
                  mpd_altAudio = list_ex (\<lambda>t. truthy (mp_url t)) tracks \<rparr>)
              (st\<lparr>lc_levels := Some ?S, lc_firstLevel := ?F\<rparr>)"
    by (erule exE)
  define m where "m = \<lparr> mpd_levels = ?S, mpd_audioTracks = tracks, mpd_firstLevel = ?F,
                  mpd_stats = mld_stats data, mpd_audio = a, mpd_video = v,
                  mpd_altAudio = list_ex (\<lambda>t. truthy (mp_url t)) tracks \<rparr>"
  have ml: "mpd_levels m = ?S" and mf: "mpd_firstLevel m = ?F"
    by (simp_all add: m_def)
  have e: "emitted (onManifestLoaded supp data st) = emitted st @ [MANIFEST_PARSED m]"
    and l: "lc_levels (onManifestLoaded supp data st) = Some (mpd_levels m)"
    and f: "lc_firstLevel (onManifestLoaded supp data st) = mpd_firstLevel m"
    unfolding r m_def [symmetric] by (simp_all add: trigger_def ml mf)
  have d: "distinct (map bitrate levels)"
    using assms(1) by (rule admitted_distinct)
  then have s: "sorted_wrt (<) (map bitrate ?S)"
    by (rule sort_key_strict)
  from assms(2) have "hd levels \<in> set ?S" by simp
  then have "bitrate (hd levels) \<in> bitrate ` set ?S" by (rule imageI)
  from findFirstLevel_index [OF this, of "lc_firstLevel st"] obtain i where
    i: "?F = int i" "i < length ?S" "bitrate (?S ! i) = bitrate (hd levels)"
    by (elim exE conjE)
  have idx: "0 \<le> ?F" "nat ?F < length ?S" "bitrate (?S ! nat ?F) = bitrate (hd levels)"
    using i by simp_all
  have first: "bitrate (?S ! nat ?F) = lp_bitrate (hd (mld_levels data))"
    if "\<exists>lv \<in> set levels. bitrate lv = lp_bitrate (hd (mld_levels data))"
  proof -
    from that obtain lv where "lv \<in> set levels" "bitrate lv = lp_bitrate (hd (mld_levels data))"
      by (elim bexE)
    with assms(1) have "bitrate (hd levels) = lp_bitrate (hd (mld_levels data))"
      by (rule admitted_head)
    with idx(3) show ?thesis by simp
  qed
  have "emitted (onManifestLoaded supp data st) = emitted st @ [MANIFEST_PARSED m] \<and>
           lc_levels (onManifestLoaded supp data st) = Some (mpd_levels m) \<and>
           lc_firstLevel (onManifestLoaded supp data st) = mpd_firstLevel m \<and>
           mpd_levels m = sort_key bitrate levels \<and>
           sorted_wrt (<) (map bitrate (mpd_levels m)) \<and>
           0 \<le> mpd_firstLevel m \<and> nat (mpd_firstLevel m) < length (mpd_levels m) \<and>
           bitrate (mpd_levels m ! nat (mpd_firstLevel m)) = bitrate (hd levels) \<and>
           ((\<exists>lv \<in> set levels. bitrate lv = lp_bitrate (hd (mld_levels data))) \<longrightarrow>
              bitrate (mpd_levels m ! nat (mpd_firstLevel m)) = lp_bitrate (hd (mld_levels data)))"
    unfolding ml mf using e [unfolded ml mf] l [unfolded ml] f [unfolded mf] s idx first
    by (intro conjI impI) (simp_all add: ml mf)
  then show ?thesis by (rule exI)
qed

text \<open>
  The manifest with bitrates 1500000, 500000 and 1500000 (backup): two levels emerge,
  the level at 1500000 has two URLs, and \<open>firstLevel\<close> is 1.
\<close>

theorem onManifestLoaded_sorted_firstLevel_witness:
  "admitted everyCodecSupported (chromeOrFirefox (newLevelController False s3_config)) (mld_levels s1_manifest) =
     (s1_survivors, True, True) \<and>
   s1_survivors \<noteq> [] \<and>
   (case lc_levels (onManifestLoaded everyCodecSupported s1_manifest (newLevelController False s3_config)) of
      None \<Rightarrow> False
    | Some ls \<Rightarrow>
        sorted_wrt (<) (map bitrate ls) \<and>
        bitrate (ls ! nat (lc_firstLevel
           (onManifestLoaded everyCodecSupported s1_manifest (newLevelController False s3_config)))) = 1500000) \<and>
   lc_firstLevel (onManifestLoaded everyCodecSupported s1_manifest (newLevelController False s3_config)) = 1 \<and>
   levelUrlCounts (onManifestLoaded everyCodecSupported s1_manifest (newLevelController False s3_config)) =
     Some [(500000, 1), (1500000, 2)]"
proof -
  let ?R = "onManifestLoaded everyCodecSupported s1_manifest (newLevelController False s3_config)"
  have h: "admitted everyCodecSupported (chromeOrFirefox (newLevelController False s3_config)) (mld_levels s1_manifest) =
     (s1_survivors, True, True)"
    by code_simp
  have ne: "s1_survivors \<noteq> []"
    by (simp add: s1_survivors_def)
  have b: "bitrate (hd s1_survivors) = 1500000"
    by (simp add: s1_survivors_def s1_manifest_def newLevel_def)
  from onManifestLoaded_sorted_firstLevel [OF h ne] obtain m :: manifestParsedData where
    M: "emitted ?R = emitted (newLevelController False s3_config) @ [MANIFEST_PARSED m] \<and>
        lc_levels ?R = Some (mpd_levels m) \<and>
        lc_firstLevel ?R = mpd_firstLevel m \<and>
        mpd_levels m = sort_key bitrate s1_survivors \<and>
        sorted_wrt (<) (map bitrate (mpd_levels m)) \<and>
        0 \<le> mpd_firstLevel m \<and> nat (mpd_firstLevel m) < length (mpd_levels m) \<and>
        bitrate (mpd_levels m ! nat (mpd_firstLevel m)) = bitrate (hd s1_survivors) \<and>
        ((\<exists>lv \<in> set s1_survivors. bitrate lv = lp_bitrate (hd (mld_levels s1_manifest))) \<longrightarrow>
           bitrate (mpd_levels m ! nat (mpd_firstLevel m)) = lp_bitrate (hd (mld_levels s1_manifest)))"
    by (erule exE)
  note M2 = M [THEN conjunct2]
  note M3 = M2 [THEN conjunct2]
  note M5 = M3 [THEN conjunct2, THEN conjunct2]
  note M8 = M5 [THEN conjunct2, THEN conjunct2, THEN conjunct2]
  have "lc_levels ?R = Some (mpd_levels m)" "lc_firstLevel ?R = mpd_firstLevel m"
    "sorted_wrt (<) (map bitrate (mpd_levels m))"
    "bitrate (mpd_levels m ! nat (mpd_firstLevel m)) = bitrate (hd s1_survivors)"
    by (rule M2 [THEN conjunct1], rule M3 [THEN conjunct1], rule M5 [THEN conjunct1],
        rule M8 [THEN conjunct1])
  then have g: "(case lc_levels ?R of
      None \<Rightarrow> False
    | Some ls \<Rightarrow> sorted_wrt (<) (map bitrate ls) \<and> bitrate (ls ! nat (lc_firstLevel ?R)) = 1500000)"
    by (simp add: b)
  have f: "lc_firstLevel ?R = 1"
    by code_simp
  have u: "levelUrlCounts ?R = Some [(500000, 1), (1500000, 2)]"
    by code_simp
  from h ne g f u show ?thesis
    by (intro conjI)
qed

text \<open>
  C2 as stated fails. The first entry of the manifest is an audio-only rendition at
  64000, which is dropped because another rendition carries video; the only level
  emitted is the one at 800000, and \<open>firstLevel\<close> is its index 0: the level at
  \<open>firstLevel\<close> does not have the bitrate of the first entry of the manifest.
\<close>

theorem onManifestLoaded_first_entry_counterexample:
  "lp_bitrate (hd (mld_levels audioFirst_manifest)) = 64000 \<and>
   levelBitrates (onManifestLoaded everyCodecSupported audioFirst_manifest (newLevelController False s3_config)) =
     Some [800000] \<and>
   lc_firstLevel (onManifestLoaded everyCodecSupported audioFirst_manifest (newLevelController False s3_config)) = 0"
proof -
  have "lp_bitrate (hd (mld_levels audioFirst_manifest)) = 64000"
    by (simp add: audioFirst_manifest_def)
  moreover have "levelBitrates (onManifestLoaded everyCodecSupported audioFirst_manifest
      (newLevelController False s3_config)) = Some [800000]"
    by code_simp
  moreover have "lc_firstLevel (onManifestLoaded everyCodecSupported audioFirst_manifest
      (newLevelController False s3_config)) = 0"
    by code_simp
  ultimately show ?thesis
    by (intro conjI)
qed

subsection \<open>The active URL index of a level\<close>

text \<open>
  Three of the four operations that write \<open>urlId\<close> or \<open>url\<close> keep every level within
  \<open>0 \<le> urlId < url.length\<close>: manifest admission, error recovery and level removal.
\<close>

lemma js_rem_range:
  assumes "0 \<le> a" and "0 < b"
  shows "0 \<le> js_rem a b \<and> js_rem a b < b"
proof (cases "a = 0")
  case True
  with assms(2) show ?thesis by (simp add: js_rem_def)
next
  case False
  with assms(1) have "sgn a = 1" by simp
  moreover from assms have "\<bar>a\<bar> mod \<bar>b\<bar> = a mod b" by simp
  moreover from assms(2) have "0 \<le> a mod b" "a mod b < b" by simp_all
  ultimately show ?thesis by (simp add: js_rem_def)
qed

lemma list_all_update:
  assumes "list_all P xs" and "P x"
  shows "list_all P (xs[i := x])"
proof -
  have "set (xs[i := x]) \<subseteq> insert x (set xs)"
    by (rule set_update_subset_insert)
  with assms show ?thesis
    unfolding list_all_iff by auto
qed

lemma at_index_Some:
  assumes "at_index xs i = Some x"
  shows "0 \<le> i" and "nat i < length xs" and "x = xs ! nat i"
  using assms by (simp_all add: at_index_def split: if_splits)

lemma recoverLevel_levels:
  assumes "lc_levels st = Some ls" and "at_index ls i = Some l0"
    and "recoverLevel ev i le fe st = Inr (st', ev')"
  shows "\<exists>x. lc_levels st' = Some (ls[nat i := x]) \<and> url x = url l0 \<and>
           (urlId x = urlId l0 \<or>
            (1 < int (length (url l0)) \<and> urlId x = js_rem (urlId l0 + 1) (int (length (url l0)))))"
  using assms
  by (auto simp: recoverLevel_def Let_def update_level_def setTimer_def clearTimer_def
      split: if_splits option.splits)

lemma recoverLevel_keeps_urlId_ok:
  assumes "levels_ok st" and "recoverLevel ev i le fe st = Inr (st', ev')"
  shows "levels_ok st'"
proof -
  from assms(2) obtain ls where ls: "lc_levels st = Some ls"
    by (cases "lc_levels st") (simp_all add: recoverLevel_def)
  from assms(2) ls obtain l0 where l0: "at_index ls i = Some l0"
    by (cases "at_index ls i") (simp_all add: recoverLevel_def)
  from assms(1) ls have all: "list_all urlId_ok ls"
    by (simp add: levels_ok_def)
  from at_index_Some [OF l0] have "l0 \<in> set ls" by simp
  with all have ok0: "urlId_ok l0"
    by (simp add: list_all_iff)
  from recoverLevel_levels [OF ls l0 assms(2)] obtain x where
    x: "lc_levels st' = Some (ls[nat i := x])" "url x = url l0"
       "urlId x = urlId l0 \<or>
        (1 < int (length (url l0)) \<and> urlId x = js_rem (urlId l0 + 1) (int (length (url l0))))"
    by (elim exE conjE)
  have "urlId_ok x"
  proof (cases "urlId x = urlId l0")
    case True
    with ok0 x(2) show ?thesis by (simp add: urlId_ok_def)
  next
    case False
    with x(3) have n: "1 < int (length (url l0))"
      and r: "urlId x = js_rem (urlId l0 + 1) (int (length (url l0)))" by simp_all
    from ok0 have "0 \<le> urlId l0 + 1" by (simp add: urlId_ok_def)
    moreover from n have "0 < int (length (url l0))" by linarith
    ultimately have "0 \<le> js_rem (urlId l0 + 1) (int (length (url l0))) \<and>
        js_rem (urlId l0 + 1) (int (length (url l0))) < int (length (url l0))"
      by (rule js_rem_range)
    with r x(2) show ?thesis by (simp add: urlId_ok_def)
  qed
  with all have "list_all urlId_ok (ls[nat i := x])"
    by (rule list_all_update)
  with x(1) show ?thesis
    by (simp add: levels_ok_def)
qed

lemma filter_indexed_nonempty:
  assumes "1 < length xs"
  shows "filter_indexed (\<lambda>u ident. Some (int ident) \<noteq> a) xs \<noteq> []"
proof -
  from assms obtain x y rest where xs: "xs = x # y # rest"
    by (cases xs; cases "tl xs") auto
  show ?thesis
    unfolding xs by (cases "a = Some 0") (simp_all add: filter_indexed_def)
qed

lemma removeLevel_keeps_urlId_ok:
  assumes "levels_ok st" and "removeLevel levelIndex urlIdArg st = Inr st'"
  shows "levels_ok st'"
proof -
  from assms(2) obtain ls where ls: "lc_levels st = Some ls"
    by (cases "lc_levels st") (simp_all add: removeLevel_def)
  from assms(1) ls have all: "\<forall>lv \<in> set ls. urlId_ok lv"
    by (simp add: levels_ok_def list_all_iff)
  define keep where "keep = (\<lambda>(index :: nat, lv :: hlsLevel).
      int index \<noteq> levelIndex \<or> (length (url lv) > 1 \<and> urlIdArg \<noteq> None))"
  define g where "g = (\<lambda>(index :: nat, lv :: hlsLevel).
      if int index = levelIndex
      then lv\<lparr>url := filter_indexed (\<lambda>u ident. Some (int ident) \<noteq> urlIdArg) (url lv), urlId := 0\<rparr>
      else lv)"
  define reindex where "reindex = (\<lambda>(index :: nat, lv :: hlsLevel).
      lv\<lparr>details := map_option
            (\<lambda>d. d\<lparr>fragments := map (\<lambda>f. f\<lparr>frag_level := int index\<rparr>) (fragments d)\<rparr>)
            (details lv)\<rparr>)"
  define edited where "edited = map g (filter keep (enumerate 0 ls))"
  have res: "lc_levels st' = Some (map reindex (enumerate 0 edited))"
    using assms(2) ls
    unfolding removeLevel_def edited_def g_def keep_def reindex_def
    by (auto simp: Let_def trigger_def)
  have e: "urlId_ok x" if "x \<in> set edited" for x
  proof -
    from that obtain index lv where m: "(index, lv) \<in> set (enumerate 0 ls)"
      and k: "keep (index, lv)" and x: "x = g (index, lv)"
      unfolding edited_def by auto
    from m have "lv \<in> set ls"
      by (auto simp: in_set_enumerate_eq)
    with all have ok: "urlId_ok lv" by (rule bspec)
    show ?thesis
    proof (cases "int index = levelIndex")
      case True
      with k have "1 < length (url lv)" by (simp add: keep_def)
      then have "filter_indexed (\<lambda>u ident. Some (int ident) \<noteq> urlIdArg) (url lv) \<noteq> []"
        by (rule filter_indexed_nonempty)
      with True x show ?thesis
        by (simp add: g_def urlId_ok_def)
    next
      case False
      with x ok show ?thesis by (simp add: g_def)
    qed
  qed
  have "urlId_ok y" if "y \<in> set (map reindex (enumerate 0 edited))" for y
  proof -
    from that obtain index x where m: "(index, x) \<in> set (enumerate 0 edited)"
      and y: "y = reindex (index, x)"
      by auto
    from m have "x \<in> set edited"
      by (auto simp: in_set_enumerate_eq)
    then have "urlId_ok x" by (rule e)
    with y show ?thesis
      by (simp add: reindex_def urlId_ok_def)
  qed
  then show ?thesis
    unfolding levels_ok_def res by (simp add: list_all_iff)
qed

text \<open>Every level that manifest admission builds has \<open>urlId = 0\<close> and at least one URL.\<close>

lemma regroup_fresh:
  assumes "\<forall>lv \<in> set ls. urlId lv = 0 \<and> url lv \<noteq> []"
  shows "\<forall>lv \<in> set (fst (regroup ua (ls, v, a) lp)). urlId lv = 0 \<and> url lv \<noteq> []"
proof -
  define P where "P = (\<lambda>lv :: hlsLevel. urlId lv = 0 \<and> url lv \<noteq> [])"
  define lp' where "lp' = (if ua \<and> truthy (lp_audioCodec lp) \<and> contains ''mp4a.40.34'' (the (lp_audioCodec lp))
               then lp\<lparr>lp_audioCodec := None\<rparr> else lp)"
  define ls1 where "ls1 = (case levelSet_lookup ls (lp_bitrate lp') of
                 None \<Rightarrow> ls @ [newLevel lp']
               | Some i \<Rightarrow> ls[i := (ls ! i)\<lparr>url := url (ls ! i) @ [lp_url lp']\<rparr>])"
  define k where "k = (case levelSet_lookup ls (lp_bitrate lp') of None \<Rightarrow> length ls | Some i \<Rightarrow> i)"
  define audioAttr where "audioAttr = (case lp_attrs lp of None \<Rightarrow> None | Some a \<Rightarrow> attr_AUDIO a)"
  define textAttr where "textAttr = (case lp_attrs lp of None \<Rightarrow> None | Some a \<Rightarrow> attr_SUBTITLES a)"
  define ls2 where "ls2 = (if truthy audioAttr then ls1[k := addGroupId (ls1 ! k) AudioGroup (the audioAttr)] else ls1)"
  define ls3 where "ls3 = (if truthy textAttr then ls2[k := addGroupId (ls2 ! k) TextGroup (the textAttr)] else ls2)"
  have r: "fst (regroup ua (ls, v, a) lp) = ls3"
    unfolding regroup_def ls3_def ls2_def ls1_def k_def audioAttr_def textAttr_def lp'_def
    by (simp add: Let_def split: option.split)
  have Pg: "P (addGroupId lv kind gid) = P lv" for lv kind gid
    by (cases kind) (simp_all add: addGroupId_def P_def)
  have upd: "list_all P (xs[j := addGroupId (xs ! j) kind gid])" if "list_all P xs" for xs j kind gid
  proof (cases "j < length xs")
    case True
    with that have "P (xs ! j)" by (simp add: list_all_length)
    then have "P (addGroupId (xs ! j) kind gid)" by (simp only: Pg)
    with that show ?thesis by (rule list_all_update)
  next
    case False
    then have "length xs \<le> j" by (rule leI)
    then have "xs[j := addGroupId (xs ! j) kind gid] = xs" by (rule list_update_beyond)
    with that show ?thesis by (simp only:)
  qed
  from assms have 0: "list_all P ls"
    by (simp add: list_all_iff P_def)
  have 1: "list_all P ls1"
  proof (cases "levelSet_lookup ls (lp_bitrate lp')")
    case None
    with 0 show ?thesis
      by (simp add: ls1_def newLevel_def P_def)
  next
    case (Some i)
    from levelSet_lookup_Some [OF Some] have "i < length ls" by simp
    with 0 have "P (ls ! i)" by (simp add: list_all_length)
    then have "P ((ls ! i)\<lparr>url := url (ls ! i) @ [lp_url lp']\<rparr>)"
      by (simp add: P_def)
    with 0 have "list_all P (ls[i := (ls ! i)\<lparr>url := url (ls ! i) @ [lp_url lp']\<rparr>])"
      by (rule list_all_update)
    with Some show ?thesis by (simp add: ls1_def)
  qed
  then have 2: "list_all P ls2"
    unfolding ls2_def by (simp add: upd)
  then have "list_all P ls3"
    unfolding ls3_def by (simp add: upd)
  then show ?thesis
    unfolding r by (simp add: list_all_iff P_def)
qed

lemma foldl_regroup_fresh:
  "\<forall>lv \<in> set (fst acc). urlId lv = 0 \<and> url lv \<noteq> [] \<Longrightarrow>
   \<forall>lv \<in> set (fst (foldl (regroup ua) acc ps)). urlId lv = 0 \<and> url lv \<noteq> []"
proof (induction ps arbitrary: acc)
  case Nil
  then show ?case by simp
next
  case (Cons p ps)
  obtain ls v a where acc: "acc = (ls, v, a)" by (cases acc)
  from Cons.prems have "\<forall>lv \<in> set (fst (regroup ua acc p)). urlId lv = 0 \<and> url lv \<noteq> []"
    unfolding acc fst_conv by (rule regroup_fresh)
  then have "\<forall>lv \<in> set (fst (foldl (regroup ua) (regroup ua acc p) ps)). urlId lv = 0 \<and> url lv \<noteq> []"
    by (rule Cons.IH)
  then show ?case by simp
qed

lemma onManifestLoaded_keeps_urlId_ok:
  assumes "levels_ok st"
  shows "levels_ok (onManifestLoaded supp data st)"
proof -
  obtain levels v a where ad: "admitted supp (chromeOrFirefox st) (mld_levels data) = (levels, v, a)"
    by (cases "admitted supp (chromeOrFirefox st) (mld_levels data)")
  show ?thesis
  proof (cases "levels = []")
    case True
    with ad assms show ?thesis
      by (simp add: onManifestLoaded_def Let_def trigger_def levels_ok_def)
  next
    case False
    from onManifestLoaded_admitted [OF ad False] obtain tracks where
      "lc_levels (onManifestLoaded supp data st) = Some (sort_key bitrate levels)"
      by (auto simp: trigger_def)
    moreover from admitted_filter [OF ad] obtain Q where
      "levels = filter Q (fst (foldl (regroup (chromeOrFirefox st)) ([], False, False) (mld_levels data)))"
      by (erule exE)
    moreover have "\<forall>lv \<in> set (fst (foldl (regroup (chromeOrFirefox st)) ([], False, False) (mld_levels data))).
        urlId lv = 0 \<and> url lv \<noteq> []"
      by (rule foldl_regroup_fresh) simp
    ultimately show ?thesis
      by (simp add: levels_ok_def list_all_iff urlId_ok_def)
  qed
qed

text \<open>
  C3 does not hold of the code. After the manifest is admitted and level 0 is selected,
  the level has one URL and \<open>urlId = 0\<close>. When the audio track is switched to a track
  whose group is not among the audio groups of the level, \<open>onAudioTrackSwitched\<close>
  stores the value \<open>- 1\<close> of its search loop in \<open>urlId\<close>; the next load of the level then
  asks for \<^verbatim>\<open>url[-1]\<close>, which is \<^verbatim>\<open>undefined\<close>.
\<close>

theorem onAudioTrackSwitched_urlId_negative:
  "levels_ok audioGroup_start \<and>
   map_option (map (\<lambda>lv. (urlId lv, length (url lv), audioGroupIds lv))) (lc_levels audioGroup_start) =
     Some [(0, 1, Some [''aac''])] \<and>
   (case onAudioTrackSwitched 1 audioGroup_start of
      Inl _ \<Rightarrow> False
    | Inr st \<Rightarrow>
        map_option (map (\<lambda>lv. (urlId lv, length (url lv)))) (lc_levels st) = Some [(- 1, 1)] \<and>
        \<not> levels_ok st \<and>
        map_sum id emitted (loadLevel (st\<lparr>emitted := []\<rparr>)) = Inr [LEVEL_LOADING None 0 (- 1)])"
proof -
  have "levels_ok audioGroup_start"
    by code_simp
  moreover have "map_option (map (\<lambda>lv. (urlId lv, length (url lv), audioGroupIds lv)))
      (lc_levels audioGroup_start) = Some [(0, 1, Some [''aac''])]"
    by code_simp
  moreover have "(case onAudioTrackSwitched 1 audioGroup_start of
      Inl _ \<Rightarrow> False
    | Inr st \<Rightarrow>
        map_option (map (\<lambda>lv. (urlId lv, length (url lv)))) (lc_levels st) = Some [(- 1, 1)] \<and>
        \<not> levels_ok st \<and>
        map_sum id emitted (loadLevel (st\<lparr>emitted := []\<rparr>)) = Inr [LEVEL_LOADING None 0 (- 1)])"
    by code_simp
  ultimately show ?thesis
    by (intro conjI)
qed

end
